theory Spec2Isabelle
  imports Complex_Main "HOL-Library.Sublist"
begin

section \<open>JavaScript values\<close>

text \<open>
  The enrichment service of \<^verbatim>\<open>src/indexAlgolia.js\<close> (the part after the document
  separator: \<^verbatim>\<open>enrichContentWithAI\<close> and \<^verbatim>\<open>processArticles\<close>) works on values that
  come out of \<^verbatim>\<open>JSON.parse\<close> and out of the model client: plain data, no functions.
  Such a value is a \<open>jsval\<close>. An object is the list of its own properties in
  property order; a number is a finite double, kept as the rational it denotes
  (\<open>-0\<close> and \<open>0\<close> are the same rational, as they are for \<^verbatim>\<open>===\<close> and for truthiness).

  A string is a list of code units. \<open>char\<close> has 256 values, so the model covers the
  texts whose code units lie below 256; the code inspects only ASCII characters
  (braces, comma, back-quote, the letters of the fence) and white space.
\<close>

datatype jsval =
    JUndefined
  | JNull
  | JBool bool
  | JNum rat
  | JStr string
  | JArr "jsval list"
  | JObj "(string \<times> jsval) list"

text \<open>
  A thrown value. The code throws \<^verbatim>\<open>new Error(msg)\<close> itself; property access on
  \<^verbatim>\<open>null\<close>/\<^verbatim>\<open>undefined\<close>, calling something that is no function, iterating a
  non-iterable and converting an object without usable \<^verbatim>\<open>toString\<close> raise a
  \<^verbatim>\<open>TypeError\<close> (its message depends on the engine and is left out);
  \<^verbatim>\<open>JSON.parse\<close> raises a \<^verbatim>\<open>SyntaxError\<close>; the model client and the file system
  raise errors of their own, all of them \<^verbatim>\<open>Error\<close> objects.
\<close>

datatype error =
    Error string
  | TypeError
  | SyntaxError string
  | ExternalError string

definition bindE :: "error + 'a \<Rightarrow> ('a \<Rightarrow> error + 'b) \<Rightarrow> error + 'b" where
  "bindE m f = (case m of Inl e \<Rightarrow> Inl e | Inr x \<Rightarrow> f x)"

text \<open>Truthiness, as \<^verbatim>\<open>!v\<close>, \<^verbatim>\<open>v || d\<close> and \<^verbatim>\<open>v ? a : b\<close> test it.\<close>

fun truthy :: "jsval \<Rightarrow> bool" where
  "truthy JUndefined = False"
| "truthy JNull = False"
| "truthy (JBool b) = b"
| "truthy (JNum n) = (n \<noteq> 0)"
| "truthy (JStr s) = (s \<noteq> [])"
| "truthy (JArr xs) = True"
| "truthy (JObj kvs) = True"

text \<open>\<^verbatim>\<open>typeof v === 'string'\<close>.\<close>

fun is_string :: "jsval \<Rightarrow> bool" where
  "is_string (JStr s) = True"
| "is_string v = False"

fun prop_lookup :: "(string \<times> jsval) list \<Rightarrow> string \<Rightarrow> jsval" where
  "prop_lookup kvs k = (case map_of kvs k of None \<Rightarrow> JUndefined | Some v \<Rightarrow> v)"

text \<open>
  \<^verbatim>\<open>v.name\<close> for the property names the code reads (\<open>candidates\<close>, \<open>content\<close>,
  \<open>parts\<close>, \<open>text\<close>, \<open>length\<close>, \<open>summary\<close>, \<open>keywords\<close>, \<open>category\<close>,
  \<open>sentiment\<close>, \<open>objectID\<close>): none of them but \<open>length\<close> is defined by a built-in
  prototype, so on a primitive or an array the access yields \<^verbatim>\<open>undefined\<close>; on
  \<^verbatim>\<open>null\<close> and \<^verbatim>\<open>undefined\<close> it throws.
\<close>

fun js_get :: "jsval \<Rightarrow> string \<Rightarrow> error + jsval" where
  "js_get JUndefined k = Inl TypeError"
| "js_get JNull k = Inl TypeError"
| "js_get (JBool b) k = Inr JUndefined"
| "js_get (JNum n) k = Inr JUndefined"
| "js_get (JStr s) k = Inr (if k = ''length'' then JNum (of_nat (length s)) else JUndefined)"
| "js_get (JArr xs) k = Inr (if k = ''length'' then JNum (of_nat (length xs)) else JUndefined)"
| "js_get (JObj kvs) k = Inr (prop_lookup kvs k)"

text \<open>\<^verbatim>\<open>v[0]\<close>.\<close>

fun js_first :: "jsval \<Rightarrow> error + jsval" where
  "js_first JUndefined = Inl TypeError"
| "js_first JNull = Inl TypeError"
| "js_first (JBool b) = Inr JUndefined"
| "js_first (JNum n) = Inr JUndefined"
| "js_first (JStr s) = Inr (case s of [] \<Rightarrow> JUndefined | c # cs \<Rightarrow> JStr [c])"
| "js_first (JArr xs) = Inr (case xs of [] \<Rightarrow> JUndefined | x # ys \<Rightarrow> x)"
| "js_first (JObj kvs) = Inr (prop_lookup kvs ''0'')"

text \<open>
  The template literal \<^verbatim>\<open>${objectId}\<close> of the log lines converts the identifier to
  a string. The conversion throws a \<^verbatim>\<open>TypeError\<close> for an object whose own
  \<open>toString\<close> property shadows the inherited method (data is never callable, and
  the inherited \<^verbatim>\<open>valueOf\<close> returns the object itself), and for an array holding
  such an object (\<^verbatim>\<open>Array.prototype.join\<close> converts each element other than
  \<^verbatim>\<open>null\<close> and \<^verbatim>\<open>undefined\<close>). Every other value converts. The text written to
  the console is not modelled, only whether writing it throws.
\<close>

fun printable :: "jsval \<Rightarrow> bool" where
  "printable (JArr xs) = list_all printable xs"
| "printable (JObj kvs) = (map_of kvs ''toString'' = None)"
| "printable v = True"

definition log_id :: "jsval \<Rightarrow> error + unit" where
  "log_id objectId = (if printable objectId then Inr () else Inl TypeError)"

section \<open>String operations\<close>

text \<open>
  White space and line terminators that \<^verbatim>\<open>String.prototype.trim\<close> removes, among
  the code units below 256: TAB, LF, VT, FF, CR, SPACE, NBSP.
\<close>

definition is_ws :: "char \<Rightarrow> bool" where
  "is_ws c = (c \<in> {CHR 0x09, CHR 0x0A, CHR 0x0B, CHR 0x0C, CHR 0x0D, CHR 0x20, CHR 0xA0})"

definition js_trim :: "string \<Rightarrow> string" where
  "js_trim s = rev (dropWhile is_ws (rev (dropWhile is_ws s)))"

text \<open>\<^verbatim>\<open>s.indexOf(c)\<close> and \<^verbatim>\<open>s.lastIndexOf(c)\<close> for a one-character \<open>c\<close>; \<open>-1\<close> when absent.\<close>

fun indexOf :: "string \<Rightarrow> char \<Rightarrow> int" where
  "indexOf [] c = -1"
| "indexOf (x # xs) c =
     (if x = c then 0 else (let r = indexOf xs c in if r = -1 then -1 else r + 1))"

definition lastIndexOf :: "string \<Rightarrow> char \<Rightarrow> int" where
  "lastIndexOf s c =
     (let r = indexOf (rev s) c in if r = -1 then -1 else int (length s) - 1 - r)"

text \<open>
  \<^verbatim>\<open>s.substring(a, b)\<close>: both arguments are clamped to \<open>0 .. length s\<close> and swapped
  when \<open>a > b\<close>.
\<close>

definition substring :: "string \<Rightarrow> int \<Rightarrow> int \<Rightarrow> string" where
  "substring s a b =
     (let n = int (length s);
          a' = min (max a 0) n;
          b' = min (max b 0) n;
          lo = min a' b';
          hi = max a' b'
      in take (nat (hi - lo)) (drop (nat lo) s))"

text \<open>\<^verbatim>\<open>s.split(c)\<close> for a one-character separator: always at least one piece.\<close>

fun js_split :: "string \<Rightarrow> char \<Rightarrow> string list" where
  "js_split [] c = [[]]"
| "js_split (x # xs) c =
     (if x = c then [] # js_split xs c
      else (case js_split xs c of [] \<Rightarrow> [[x]] | p # ps \<Rightarrow> (x # p) # ps))"

text \<open>
  \<^verbatim>\<open>text.replace(/^```json\n|\n```$/g, '')\<close>. The regular expression has no \<^verbatim>\<open>m\<close>
  flag, so \<^verbatim>\<open>^\<close> matches at index 0 only and \<^verbatim>\<open>$\<close> at the end of the text only. The
  first alternative can match once, at index 0; the scan then goes on behind that
  match, where only the second alternative can match, at the last four code units
  of what is left.
\<close>

definition fence_open :: string where
  "fence_open = ''```json\<newline>''"

definition fence_close :: string where
  "fence_close = ''\<newline>```''"

definition strip_fence :: "string \<Rightarrow> string" where
  "strip_fence s =
     (let s1 = (if prefix fence_open s then drop (length fence_open) s else s)
      in if suffix fence_close s1 then take (length s1 - length fence_close) s1 else s1)"

text \<open>Decimal digits of an array index, for the keys that spreading an array or a string creates.\<close>

definition digit :: "nat \<Rightarrow> char" where
  "digit d = ''0123456789'' ! d"

fun dec :: "nat \<Rightarrow> string" where
  "dec n = (if n < 10 then [digit n] else dec (n div 10) @ [digit (n mod 10)])"

declare dec.simps [simp del]

section \<open>The content enricher\<close>

text \<open>
  The object that \<^verbatim>\<open>enrichContentWithAI\<close> returns: \<open>summary\<close>, \<open>category\<close> and
  \<open>sentiment\<close> are whatever value the payload held (or \<^verbatim>\<open>null\<close>), \<open>keywords\<close> (here
  \<open>keywords'\<close>, the plain name being reserved) is an array of strings.
\<close>

record enrichment =
  summary :: jsval
  keywords' :: "string list"
  category :: jsval
  sentiment :: jsval

definition default_enrichment :: enrichment where
  "default_enrichment = \<lparr>summary = JNull, keywords' = [], category = JNull, sentiment = JNull\<rparr>"

text \<open>The code units of a value that is a string.\<close>

fun text_of :: "jsval \<Rightarrow> string" where
  "text_of (JStr s) = s"
| "text_of v = []"

text \<open>The template literal of the prompt, around \<^verbatim>\<open>${content}\<close>.\<close>

definition prompt_head :: string where
  \<open>prompt_head =
     ''\<newline>    You are an expert content analyzer. For the following text, perform the following tasks:'' @
     ''\<newline>    1. Summarize the content concisely, in about 2-3 sentences.'' @
     ''\<newline>    2. Identify 5-7 main keywords or tags that accurately describe the content. Provide them as a comma-separated list.'' @
     ''\<newline>    3. Categorize the content into one of these broad categories: Technology, Environment, Healthcare, Business, Education, Science, Arts & Culture, General. If none fit perfectly, use 'General'.'' @
     ''\<newline>    4. Based on the overall tone, assign a sentiment: Positive, Neutral, or Negative.'' @
     ''\<newline>\<newline>    Provide the output in a JSON format with keys: "summary", "keywords", "category", "sentiment".'' @
     ''\<newline>\<newline>    Content:\<newline>    ---\<newline>    ''\<close>

definition prompt_tail :: string where
  "prompt_tail = ''\<newline>    ---\<newline>    ''"

definition build_prompt :: "string \<Rightarrow> string" where
  "build_prompt content = prompt_head @ content @ prompt_tail"

text \<open>
  The model client and the file system are the world outside the program, a state
  \<open>'w\<close> that the program threads through. \<^verbatim>\<open>ai.models.generateContent\<close> is a
  parameter: given the world and the prompt (model name and role are constants of
  the request) it answers with a response or throws, and leaves a new world behind,
  so that a call is visible in the world. \<^verbatim>\<open>JSON.parse\<close> is a parameter too, a pure
  function from a text to a value or a thrown \<^verbatim>\<open>SyntaxError\<close>.
\<close>

type_synonym 'w model = "'w \<Rightarrow> string \<Rightarrow> (error + jsval) \<times> 'w"

type_synonym parser = "string \<Rightarrow> error + jsval"

definition no_candidate :: error where
  "no_candidate = Error ''Gemini API did not return a valid text candidate.''"

text \<open>
  Lines 107 to 120: the guard on the shape of the response, with the short-circuit
  order of the source. Each access can throw a \<^verbatim>\<open>TypeError\<close> of its own (for
  instance \<^verbatim>\<open>candidates: [null]\<close>). The debug output inside the guard reads
  properties of a truthy \<^verbatim>\<open>result\<close> only and cannot throw.
\<close>

definition response_text :: "jsval \<Rightarrow> error + jsval" where
  "response_text result =
     (if \<not> truthy result then Inl no_candidate else
      bindE (js_get result ''candidates'') (\<lambda>candidates.
      if \<not> truthy candidates then Inl no_candidate else
      bindE (js_get candidates ''length'') (\<lambda>n.
      if n = JNum 0 then Inl no_candidate else
      bindE (js_first candidates) (\<lambda>c0.
      bindE (js_get c0 ''content'') (\<lambda>content.
      if \<not> truthy content then Inl no_candidate else
      bindE (js_get content ''parts'') (\<lambda>parts.
      if \<not> truthy parts then Inl no_candidate else
      bindE (js_get parts ''length'') (\<lambda>m.
      if m = JNum 0 then Inl no_candidate else
      bindE (js_first parts) (\<lambda>p0.
      bindE (js_get p0 ''text'') (\<lambda>text.
      if \<not> truthy text then Inl no_candidate else Inr text)))))))))"

text \<open>Line 124: \<^verbatim>\<open>text.replace(...).trim()\<close>.\<close>

definition clean_text :: "string \<Rightarrow> string" where
  "clean_text text = js_trim (strip_fence text)"

definition no_json :: "string \<Rightarrow> error" where
  "no_json cleanedText = Error (''Could not find valid JSON in Gemini response: '' @ cleanedText)"

text \<open>
  Lines 124 to 136, the extraction of the payload. A \<open>text\<close> that is no string has
  no \<^verbatim>\<open>replace\<close> method, and the call throws.
\<close>

definition extract_payload :: "parser \<Rightarrow> jsval \<Rightarrow> error + jsval" where
  "extract_payload parse text =
     (case text of
        JStr t \<Rightarrow>
          (let cleanedText = clean_text t;
               jsonStartIndex = indexOf cleanedText CHR ''{'';
               jsonEndIndex = lastIndexOf cleanedText CHR ''}''
           in if jsonStartIndex \<noteq> -1 \<and> jsonEndIndex \<noteq> -1 \<and> jsonEndIndex > jsonStartIndex
              then parse (substring cleanedText jsonStartIndex (jsonEndIndex + 1))
              else Inl (no_json cleanedText))
      | _ \<Rightarrow> Inl TypeError)"

text \<open>
  Lines 139 to 144, the returned object literal. \<^verbatim>\<open>a || null\<close> keeps a truthy
  \<open>a\<close> of any type. A truthy \<open>keywords\<close> that is no string has no \<^verbatim>\<open>split\<close>
  method, and the call throws.
\<close>

definition or_null :: "jsval \<Rightarrow> jsval" where
  "or_null v = (if truthy v then v else JNull)"

definition split_keywords :: "jsval \<Rightarrow> error + string list" where
  "split_keywords kw =
     (if truthy kw
      then (case kw of JStr k \<Rightarrow> Inr (map js_trim (js_split k CHR '','')) | _ \<Rightarrow> Inl TypeError)
      else Inr [])"

definition normalize :: "jsval \<Rightarrow> error + enrichment" where
  "normalize parsedResult =
     bindE (js_get parsedResult ''summary'') (\<lambda>s.
     bindE (js_get parsedResult ''keywords'') (\<lambda>kw.
     bindE (split_keywords kw) (\<lambda>ks.
     bindE (js_get parsedResult ''category'') (\<lambda>c.
     bindE (js_get parsedResult ''sentiment'') (\<lambda>t.
     Inr \<lparr>summary = or_null s, keywords' = ks, category = or_null c, sentiment = or_null t\<rparr>)))))"

text \<open>
  Lines 124 to 144 together, from the text of the response to the returned object:
  the \<open>extract\<close> of the specification (\<open>extract\<close> is a reserved word here).
\<close>

definition extract_enrichment :: "parser \<Rightarrow> jsval \<Rightarrow> error + enrichment" where
  "extract_enrichment parse text = bindE (extract_payload parse text) normalize"

text \<open>
  The body of the \<^verbatim>\<open>try\<close> block, lines 99 to 144, for a \<open>content\<close> that is a string.
  The log line 99 converts the identifier; the later log lines of the block convert the
  same identifier again and cannot fail where line 99 did not.
\<close>

definition enrich_try ::
  "'w model \<Rightarrow> parser \<Rightarrow> string \<Rightarrow> jsval \<Rightarrow> 'w \<Rightarrow> (error + enrichment) \<times> 'w" where
  "enrich_try generateContent parse content objectId w =
     (case log_id objectId of
        Inl e \<Rightarrow> (Inl e, w)
      | Inr u \<Rightarrow>
          (case generateContent w (build_prompt content) of
             (Inl e, w') \<Rightarrow> (Inl e, w')
           | (Inr result, w') \<Rightarrow> (bindE (response_text result) (extract_enrichment parse), w')))"

text \<open>
  \<^verbatim>\<open>enrichContentWithAI\<close>. The guard of line 73 returns the defaults before any
  call; the \<^verbatim>\<open>catch\<close> of line 145 turns every error of the \<^verbatim>\<open>try\<close> block into
  the defaults. Both write a log line with \<^verbatim>\<open>${objectId}\<close> first, outside the
  \<^verbatim>\<open>try\<close>, and that conversion is the only place an error can leave the function.
\<close>

definition enrichContentWithAI ::
  "'w model \<Rightarrow> parser \<Rightarrow> jsval \<Rightarrow> jsval \<Rightarrow> 'w \<Rightarrow> (error + enrichment) \<times> 'w" where
  "enrichContentWithAI generateContent parse content objectId w =
     (if \<not> truthy content \<or> \<not> is_string content
      then (bindE (log_id objectId) (\<lambda>u. Inr default_enrichment), w)
      else
        (case enrich_try generateContent parse (text_of content) objectId w of
           (Inr r, w') \<Rightarrow> (Inr r, w')
         | (Inl e, w') \<Rightarrow> (bindE (log_id objectId) (\<lambda>u. Inr default_enrichment), w')))"

section \<open>The batch processor\<close>

text \<open>
  \<^verbatim>\<open>{...article}\<close>: the own enumerable properties of the value. An object gives its
  properties, an array and a string their elements under the index keys, any other
  value nothing.
\<close>

fun index_keys :: "nat \<Rightarrow> jsval list \<Rightarrow> (string \<times> jsval) list" where
  "index_keys i [] = []"
| "index_keys i (x # xs) = (dec i, x) # index_keys (Suc i) xs"

fun spread :: "jsval \<Rightarrow> (string \<times> jsval) list" where
  "spread (JObj kvs) = kvs"
| "spread (JArr xs) = index_keys 0 xs"
| "spread (JStr s) = index_keys 0 (map (\<lambda>c. JStr [c]) s)"
| "spread v = []"

text \<open>
  A property written after the spread: it replaces the value of a key the object
  already has, in place, and is appended otherwise.
\<close>

fun set_prop :: "(string \<times> jsval) list \<Rightarrow> string \<Rightarrow> jsval \<Rightarrow> (string \<times> jsval) list" where
  "set_prop [] k v = [(k, v)]"
| "set_prop ((k', v') # kvs) k v =
     (if k' = k then (k, v) # kvs else (k', v') # set_prop kvs k v)"

text \<open>Lines 166 to 172, the object pushed for one article.\<close>

definition merge_enrichment :: "jsval \<Rightarrow> enrichment \<Rightarrow> jsval" where
  "merge_enrichment article e =
     JObj (set_prop (set_prop (set_prop (set_prop (spread article)
       ''ai_summary'' (summary e))
       ''ai_keywords'' (JArr (map JStr (keywords' e))))
       ''ai_category'' (category e))
       ''ai_sentiment'' (sentiment e))"

text \<open>
  \<^verbatim>\<open>for (const article of articles)\<close>: an array is iterated by element, a string by
  character; any other value is not iterable, and the loop throws.
\<close>

fun iterate :: "jsval \<Rightarrow> error + jsval list" where
  "iterate (JArr xs) = Inr xs"
| "iterate (JStr s) = Inr (map (\<lambda>c. JStr [c]) s)"
| "iterate v = Inl TypeError"

text \<open>
  The loop of lines 164 to 173, with \<open>enrichedArticles\<close> as accumulator. An error
  of the body ends the loop; the world keeps the calls made so far.
\<close>

fun enrich_loop ::
  "'w model \<Rightarrow> parser \<Rightarrow> jsval list \<Rightarrow> jsval list \<Rightarrow> 'w \<Rightarrow> (error + jsval list) \<times> 'w" where
  "enrich_loop generateContent parse [] enrichedArticles w = (Inr enrichedArticles, w)"
| "enrich_loop generateContent parse (article # rest) enrichedArticles w =
     (case js_get article ''content'' of
        Inl e \<Rightarrow> (Inl e, w)
      | Inr content \<Rightarrow>
          (case js_get article ''objectID'' of
             Inl e \<Rightarrow> (Inl e, w)
           | Inr objectId \<Rightarrow>
               (case enrichContentWithAI generateContent parse content objectId w of
                  (Inl e, w') \<Rightarrow> (Inl e, w')
                | (Inr enrichment, w') \<Rightarrow>
                    enrich_loop generateContent parse rest
                      (enrichedArticles @ [merge_enrichment article enrichment]) w')))"

text \<open>
  \<^verbatim>\<open>fs.readFile(filePath, 'utf8')\<close> is a parameter: it reads the world and returns
  the text of the file or throws.
\<close>

type_synonym 'w reader = "'w \<Rightarrow> string \<Rightarrow> error + string"

text \<open>The body of the \<^verbatim>\<open>try\<close> block of \<^verbatim>\<open>processArticles\<close>, lines 160 to 174.\<close>

definition process_try ::
  "'w reader \<Rightarrow> parser \<Rightarrow> 'w model \<Rightarrow> string \<Rightarrow> 'w \<Rightarrow> (error + jsval list) \<times> 'w" where
  "process_try readFile parse generateContent filePath w =
     (case readFile w filePath of
        Inl e \<Rightarrow> (Inl e, w)
      | Inr fileContent \<Rightarrow>
          (case parse fileContent of
             Inl e \<Rightarrow> (Inl e, w)
           | Inr articles \<Rightarrow>
               (case iterate articles of
                  Inl e \<Rightarrow> (Inl e, w)
                | Inr items \<Rightarrow> enrich_loop generateContent parse items [] w)))"

text \<open>
  \<^verbatim>\<open>processArticles\<close>: the \<^verbatim>\<open>catch\<close> of line 176 returns \<^verbatim>\<open>[]\<close> for every error of
  the \<^verbatim>\<open>try\<close> block. The result type keeps an error branch, so that "no exception
  escapes" is a statement about the function and not about its type.
\<close>

definition processArticles ::
  "'w reader \<Rightarrow> parser \<Rightarrow> 'w model \<Rightarrow> string \<Rightarrow> 'w \<Rightarrow> (error + jsval list) \<times> 'w" where
  "processArticles readFile parse generateContent filePath w =
     (case process_try readFile parse generateContent filePath w of
        (Inl e, w') \<Rightarrow> (Inr [], w')
      | (Inr enrichedArticles, w') \<Rightarrow> (Inr enrichedArticles, w'))"

section \<open>Stand-ins for the outside world\<close>

text \<open>
  Concrete models, parsers and readers for the runs below. A stub model counts its
  calls in the world, a natural number; \<open>text_response\<close> is a response of the shape
  the guard of line 107 accepts; \<open>table_parse\<close> knows the parse of the texts in its
  table and rejects every other text.
\<close>

definition text_response :: "string \<Rightarrow> jsval" where
  "text_response t =
     JObj [(''candidates'',
       JArr [JObj [(''content'', JObj [(''parts'', JArr [JObj [(''text'', JStr t)]])])]])]"

definition stub_model :: "jsval \<Rightarrow> nat model" where
  "stub_model response n prompt = (Inr response, Suc n)"

definition failing_model :: "nat model" where
  "failing_model n prompt = (Inl (ExternalError ''429 Too Many Requests''), Suc n)"

definition table_parse :: "(string \<times> jsval) list \<Rightarrow> parser" where
  "table_parse table t =
     (case map_of table t of None \<Rightarrow> Inl (SyntaxError ''Unexpected token'') | Some v \<Rightarrow> Inr v)"

definition stub_reader :: "string \<Rightarrow> 'w reader" where
  "stub_reader fileContent w filePath = Inr fileContent"

definition missing_reader :: "'w reader" where
  "missing_reader w filePath = Inl (ExternalError ''ENOENT: no such file or directory'')"

text \<open>
  Texts a model may answer with, without their braces, and the objects that
  \<^verbatim>\<open>JSON.parse\<close> makes of them: a payload as the prompt asks for, one whose
  \<open>keywords\<close> is an array, one whose \<open>keywords\<close> is \<^verbatim>\<open>false\<close>, and an object whose
  \<open>keywords\<close> and \<open>category\<close> are empty texts.
\<close>

definition solar_inner :: string where
  \<open>solar_inner = ''"summary":"Solar costs dropped.","keywords":"solar, energy, cost","category":"Environment","sentiment":"Positive"''\<close>

definition solar_fields :: "(string \<times> jsval) list" where
  "solar_fields =
     [(''summary'', JStr ''Solar costs dropped.''), (''keywords'', JStr ''solar, energy, cost''),
      (''category'', JStr ''Environment''), (''sentiment'', JStr ''Positive'')]"

definition listed_inner :: string where
  \<open>listed_inner = ''"summary":"Solar costs dropped.","keywords":["solar","energy"],"category":"Environment","sentiment":"Positive"''\<close>

definition listed_fields :: "(string \<times> jsval) list" where
  "listed_fields =
     [(''summary'', JStr ''Solar costs dropped.''),
      (''keywords'', JArr [JStr ''solar'', JStr ''energy'']),
      (''category'', JStr ''Environment''), (''sentiment'', JStr ''Positive'')]"

definition unset_inner :: string where
  \<open>unset_inner = ''"summary":"Solar costs dropped.","keywords":false,"category":"Environment","sentiment":"Positive"''\<close>

definition unset_fields :: "(string \<times> jsval) list" where
  "unset_fields =
     [(''summary'', JStr ''Solar costs dropped.''), (''keywords'', JBool False),
      (''category'', JStr ''Environment''), (''sentiment'', JStr ''Positive'')]"

definition empty_fields :: "(string \<times> jsval) list" where
  "empty_fields =
     [(''summary'', JStr ''Solar costs dropped.''), (''keywords'', JStr []),
      (''category'', JStr []), (''sentiment'', JStr ''Positive'')]"

definition solar_content :: string where
  "solar_content = ''Solar panel costs fell 30% this year.''"

text \<open>
  Files and what \<^verbatim>\<open>JSON.parse\<close> makes of them: two records, the second without
  content; one record that already has an \<open>ai_summary\<close> field; a file that holds a
  JSON text and not an array; a file that holds a single object.
\<close>

definition two_records :: "jsval list" where
  "two_records =
     [JObj [(''objectID'', JStr ''1''), (''content'', JStr solar_content)],
      JObj [(''objectID'', JStr ''2''), (''title'', JStr ''No content'')]]"

definition two_records_file :: string where
  \<open>two_records_file = ''[{"objectID":"1","content":"Solar panel costs fell 30% this year."},{"objectID":"2","title":"No content"}]''\<close>

definition tagged_fields :: "(string \<times> jsval) list" where
  "tagged_fields =
     [(''objectID'', JStr ''1''), (''content'', JStr solar_content), (''ai_summary'', JStr ''old'')]"

definition tagged_file :: string where
  \<open>tagged_file = ''[{"objectID":"1","content":"Solar panel costs fell 30% this year.","ai_summary":"old"}]''\<close>

definition quoted_file :: string where
  \<open>quoted_file = ''"ab"''\<close>

definition object_file :: string where
  \<open>object_file = ''{"summary":"Solar costs dropped.","keywords":"solar, energy, cost","category":"Environment","sentiment":"Positive"}''\<close>

section \<open>Basic facts about the enricher\<close>

lemma bindE_simps [simp]:
  "bindE (Inl e) f = Inl e"
  "bindE (Inr x) f = f x"
  by (simp_all add: bindE_def)

lemma log_id_printable [simp]: "printable objectId \<Longrightarrow> log_id objectId = Inr ()"
  by (simp add: log_id_def)

lemma enrich_invalid:
  "\<not> truthy content \<or> \<not> is_string content \<Longrightarrow> printable objectId \<Longrightarrow>
   enrichContentWithAI gen parse content objectId w = (Inr default_enrichment, w)"
  by (simp add: enrichContentWithAI_def)

lemma enrich_valid:
  assumes "truthy content" "is_string content" "printable objectId"
    and "gen w (build_prompt (text_of content)) = (out, w')"
  shows "enrichContentWithAI gen parse content objectId w =
     (Inr (case bindE out (\<lambda>result. bindE (response_text result) (extract_enrichment parse)) of
             Inl e \<Rightarrow> default_enrichment | Inr r \<Rightarrow> r), w')"
proof (cases out)
  case (Inl e)
  with assms show ?thesis by (simp add: enrichContentWithAI_def enrich_try_def)
next
  case (Inr result)
  with assms show ?thesis
    by (cases "bindE (response_text result) (extract_enrichment parse)")
       (simp_all add: enrichContentWithAI_def enrich_try_def)
qed

section \<open>The batch processor contains its errors\<close>

lemma process_total:
  "\<exists>xs. fst (processArticles readFile parse gen filePath w) = Inr xs"
  by (cases "process_try readFile parse gen filePath w";
      cases "fst (process_try readFile parse gen filePath w)")
     (simp_all add: processArticles_def)

text \<open>
  Claim C3. \<open>processArticles\<close> returns a sequence for every reader, parser, model,
  path and world: no error leaves it. When the file cannot be read, or its content
  is rejected by the parser, the sequence is empty and no model call has been made.
\<close>

theorem process_unreadable:
  "(\<exists>xs. fst (processArticles readFile parse gen filePath w) = Inr xs) \<and>
   (\<forall>e. readFile w filePath = Inl e \<longrightarrow>
      processArticles readFile parse gen filePath w = (Inr [], w)) \<and>
   (\<forall>fileContent e. readFile w filePath = Inr fileContent \<and> parse fileContent = Inl e \<longrightarrow>
      processArticles readFile parse gen filePath w = (Inr [], w))"
proof (intro conjI allI impI)
  show "\<exists>xs. fst (processArticles readFile parse gen filePath w) = Inr xs"
    by (rule process_total)
next
  fix e assume "readFile w filePath = Inl e"
  then show "processArticles readFile parse gen filePath w = (Inr [], w)"
    by (simp add: processArticles_def process_try_def)
next
  fix fileContent e
  assume "readFile w filePath = Inr fileContent \<and> parse fileContent = Inl e"
  then show "processArticles readFile parse gen filePath w = (Inr [], w)"
    by (simp add: processArticles_def process_try_def)
qed

text \<open>A missing file, and a file whose content is cut off.\<close>

theorem process_unreadable_witness:
  "processArticles missing_reader (table_parse []) failing_model ''./data/articles.json'' 0
     = (Inr [], 0) \<and>
   processArticles (stub_reader ''[{'') (table_parse []) failing_model ''./data/articles.json'' 0
     = (Inr [], 0)"
proof -
  have a: "missing_reader (0::nat) ''./data/articles.json''
             = Inl (ExternalError ''ENOENT: no such file or directory'')"
    by (simp add: missing_reader_def)
  have b: "stub_reader ''[{'' (0::nat) ''./data/articles.json'' = Inr ''[{''"
    by (simp add: stub_reader_def)
  have c: "table_parse [] ''[{'' = Inl (SyntaxError ''Unexpected token'')"
    by (simp add: table_parse_def)
  from process_unreadable [where readFile = missing_reader and w = "0::nat"
      and filePath = "''./data/articles.json''" and parse = "table_parse []" and gen = failing_model] a
  have 1: "processArticles missing_reader (table_parse []) failing_model ''./data/articles.json'' 0
     = (Inr [], 0)" by simp
  from process_unreadable [where readFile = "stub_reader ''[{''" and w = "0::nat"
      and filePath = "''./data/articles.json''" and parse = "table_parse []" and gen = failing_model] b c
  have 2: "processArticles (stub_reader ''[{'') (table_parse []) failing_model ''./data/articles.json'' 0
     = (Inr [], 0)" by simp
  from 1 2 show ?thesis by (rule conjI)
qed

section \<open>Locating the payload\<close>

lemma indexOf_absent: "c \<notin> set s \<Longrightarrow> indexOf s c = -1"
  by (induction s) auto

lemma indexOf_found: "c \<notin> set pre \<Longrightarrow> indexOf (pre @ c # r) c = int (length pre)"
  by (induction pre) (auto simp: Let_def)

lemma lastIndexOf_absent: "c \<notin> set s \<Longrightarrow> lastIndexOf s c = -1"
  by (simp add: lastIndexOf_def indexOf_absent)

lemma lastIndexOf_found: "c \<notin> set post \<Longrightarrow> lastIndexOf (pre @ c # post) c = int (length pre)"
  using indexOf_found [of c "rev post" "rev pre"]
  by (simp add: lastIndexOf_def Let_def)

lemma substring_take_drop:
  assumes "a \<le> b" "b \<le> length s"
  shows "substring s (int a) (int b) = take (b - a) (drop a s)"
proof -
  have 1: "min (max (int a) 0) (int (length s)) = int a" using assms by simp
  have 2: "min (max (int b) 0) (int (length s)) = int b" using assms by simp
  have 3: "min (int a) (int b) = int a" "max (int a) (int b) = int b" using assms by simp_all
  have 4: "nat (int b - int a) = b - a" by simp
  show ?thesis by (simp only: substring_def Let_def 1 2 3 4 nat_int)
qed

lemma substring_inner:
  "substring (pre @ p @ post) (int (length pre)) (int (length pre + length p)) = p"
  using substring_take_drop [of "length pre" "length pre + length p" "pre @ p @ post"]
  by simp

lemma not_ws_braces [simp]: "\<not> is_ws CHR ''{''" "\<not> is_ws CHR ''}''"
  by (simp_all add: is_ws_def)

lemma js_trim_framed:
  "js_trim (pre @ CHR ''{'' # q @ CHR ''}'' # post) =
     dropWhile is_ws pre @ CHR ''{'' # q @ CHR ''}'' # rev (dropWhile is_ws (rev post))"
proof -
  have 1: "dropWhile is_ws (pre @ CHR ''{'' # q @ CHR ''}'' # post) =
           dropWhile is_ws pre @ CHR ''{'' # q @ CHR ''}'' # post"
    by (simp add: dropWhile_append)
  have 2: "dropWhile is_ws (rev post @ CHR ''}'' # rev q @ CHR ''{'' # rev (dropWhile is_ws pre)) =
           dropWhile is_ws (rev post) @ CHR ''}'' # rev q @ CHR ''{'' # rev (dropWhile is_ws pre)"
    by (simp add: dropWhile_append)
  show ?thesis by (simp add: js_trim_def 1 2)
qed

lemma fence_open_no_brace: "CHR ''{'' \<notin> set fence_open"
  by (simp add: fence_open_def)

lemma fence_close_no_brace: "CHR ''}'' \<notin> set fence_close"
  by (simp add: fence_close_def)

lemma prefix_before:
  assumes "prefix f (pre @ c # r)" "c \<notin> set f"
  shows "prefix f pre"
proof -
  from assms(1) consider "prefix f pre" | us where "f = pre @ us" "prefix us (c # r)"
    by (auto simp add: prefix_append)
  then show ?thesis
  proof cases
    case 1
    then show ?thesis .
  next
    case 2
    with assms(2) show ?thesis by (cases us) auto
  qed
qed

lemma suffix_after:
  assumes "suffix f (r @ c # post)" "c \<notin> set f"
  shows "suffix f post"
proof -
  from assms(1) have "prefix (rev f) (rev post @ c # rev r)"
    by (simp add: suffix_to_prefix)
  moreover from assms(2) have "c \<notin> set (rev f)" by simp
  ultimately have "prefix (rev f) (rev post)" by (rule prefix_before)
  then show ?thesis by (simp add: suffix_to_prefix)
qed

lemma strip_fence_framed:
  assumes "CHR ''{'' \<notin> set pre" "CHR ''}'' \<notin> set post"
  shows "\<exists>pre' post'. strip_fence (pre @ CHR ''{'' # q @ CHR ''}'' # post) =
           pre' @ CHR ''{'' # q @ CHR ''}'' # post' \<and>
           CHR ''{'' \<notin> set pre' \<and> CHR ''}'' \<notin> set post'"
proof -
  let ?mid = "CHR ''{'' # q @ [CHR ''}'']"
  define s1 where "s1 = (if prefix fence_open (pre @ ?mid @ post)
                         then drop (length fence_open) (pre @ ?mid @ post) else pre @ ?mid @ post)"
  have "\<exists>pre1. s1 = pre1 @ ?mid @ post \<and> CHR ''{'' \<notin> set pre1"
  proof (cases "prefix fence_open (pre @ ?mid @ post)")
    case True
    then have "prefix fence_open pre"
      using prefix_before [of fence_open pre "CHR ''{''" "q @ CHR ''}'' # post"] fence_open_no_brace
      by simp
    then obtain pre1 where p: "pre = fence_open @ pre1" by (auto simp add: prefix_def)
    with True assms(1) show ?thesis by (auto simp add: s1_def)
  next
    case False
    with assms(1) show ?thesis by (auto simp add: s1_def)
  qed
  then obtain pre1 where s1: "s1 = pre1 @ ?mid @ post" and pre1: "CHR ''{'' \<notin> set pre1"
    by blast
  have "\<exists>post1. (if suffix fence_close s1 then take (length s1 - length fence_close) s1 else s1)
           = pre1 @ ?mid @ post1 \<and> CHR ''}'' \<notin> set post1"
  proof (cases "suffix fence_close s1")
    case True
    then have "suffix fence_close post"
      using suffix_after [of fence_close "pre1 @ CHR ''{'' # q" "CHR ''}''" post] fence_close_no_brace
      by (simp add: s1)
    then obtain post1 where p: "post = post1 @ fence_close" by (auto simp add: suffix_def)
    with True assms(2) show ?thesis by (auto simp add: s1)
  next
    case False
    with assms(2) show ?thesis by (auto simp add: s1)
  qed
  then obtain post1 where
    r: "(if suffix fence_close s1 then take (length s1 - length fence_close) s1 else s1)
           = pre1 @ ?mid @ post1" and post1: "CHR ''}'' \<notin> set post1"
    by blast
  have "strip_fence (pre @ CHR ''{'' # q @ CHR ''}'' # post) =
        (if suffix fence_close s1 then take (length s1 - length fence_close) s1 else s1)"
    by (simp add: strip_fence_def s1_def Let_def)
  with r pre1 post1 show ?thesis by auto
qed

lemma set_dropWhile_subset: "set (dropWhile P xs) \<subseteq> set xs"
  by (induction xs) auto

lemma clean_text_framed:
  assumes "CHR ''{'' \<notin> set pre" "CHR ''}'' \<notin> set post"
  shows "\<exists>pre' post'. clean_text (pre @ CHR ''{'' # q @ CHR ''}'' # post) =
           pre' @ CHR ''{'' # q @ CHR ''}'' # post' \<and>
           CHR ''{'' \<notin> set pre' \<and> CHR ''}'' \<notin> set post'"
proof -
  from strip_fence_framed [OF assms] obtain pre1 post1 where
    s: "strip_fence (pre @ CHR ''{'' # q @ CHR ''}'' # post) = pre1 @ CHR ''{'' # q @ CHR ''}'' # post1"
    and a: "CHR ''{'' \<notin> set pre1" and b: "CHR ''}'' \<notin> set post1"
    by blast
  have a2: "CHR ''{'' \<notin> set (dropWhile is_ws pre1)"
    using a set_dropWhile_subset [of is_ws pre1] by auto
  have b2: "CHR ''}'' \<notin> set (rev (dropWhile is_ws (rev post1)))"
    using b set_dropWhile_subset [of is_ws "rev post1"] by auto
  have "clean_text (pre @ CHR ''{'' # q @ CHR ''}'' # post) =
        dropWhile is_ws pre1 @ CHR ''{'' # q @ CHR ''}'' # rev (dropWhile is_ws (rev post1))"
    by (simp add: clean_text_def s js_trim_framed)
  with a2 b2 show ?thesis by blast
qed

lemma extract_payload_pair:
  assumes "clean_text t = pre @ CHR ''{'' # q @ CHR ''}'' # post"
    and "CHR ''{'' \<notin> set pre" "CHR ''}'' \<notin> set post"
  shows "extract_payload parse (JStr t) = parse (CHR ''{'' # q @ ''}'')"
proof -
  have i: "indexOf (pre @ CHR ''{'' # q @ CHR ''}'' # post) CHR ''{'' = int (length pre)"
    using assms(2) by (rule indexOf_found)
  have j: "lastIndexOf (pre @ CHR ''{'' # q @ CHR ''}'' # post) CHR ''}'' = int (length pre + 1 + length q)"
    using lastIndexOf_found [OF assms(3), of "pre @ CHR ''{'' # q"] by simp
  have k: "substring (pre @ CHR ''{'' # q @ CHR ''}'' # post) (int (length pre))
             (int (length pre + 1 + length q) + 1) = CHR ''{'' # q @ ''}''"
    using substring_inner [of pre "CHR ''{'' # q @ ''}''" post] by (simp add: add.commute)
  show ?thesis
    unfolding extract_payload_def using k by (simp add: assms(1) i j Let_def)
qed

lemma extract_payload_framed:
  assumes "CHR ''{'' \<notin> set pre" "CHR ''}'' \<notin> set post"
  shows "extract_payload parse (JStr (pre @ CHR ''{'' # q @ CHR ''}'' # post)) =
         parse (CHR ''{'' # q @ ''}'')"
proof -
  from clean_text_framed [OF assms] obtain pre' post' where
    "clean_text (pre @ CHR ''{'' # q @ CHR ''}'' # post) = pre' @ CHR ''{'' # q @ CHR ''}'' # post'"
    "CHR ''{'' \<notin> set pre'" "CHR ''}'' \<notin> set post'"
    by blast
  then show ?thesis by (rule extract_payload_pair)
qed

lemma extract_payload_no_open:
  assumes "CHR ''{'' \<notin> set (clean_text t)"
  shows "extract_payload parse (JStr t) = Inl (no_json (clean_text t))"
  using indexOf_absent [OF assms] by (simp add: extract_payload_def Let_def)

lemma extract_payload_no_close:
  assumes "CHR ''}'' \<notin> set (clean_text t)"
  shows "extract_payload parse (JStr t) = Inl (no_json (clean_text t))"
  using lastIndexOf_absent [OF assms] by (simp add: extract_payload_def Let_def)

lemma extract_payload_reversed:
  assumes c: "clean_text t = a @ CHR ''{'' # b"
    and a: "CHR ''{'' \<notin> set a" and b: "CHR ''}'' \<notin> set b"
  shows "extract_payload parse (JStr t) = Inl (no_json (clean_text t))"
proof (cases "CHR ''}'' \<in> set a")
  case False
  with b c have "CHR ''}'' \<notin> set (clean_text t)" by simp
  then show ?thesis by (rule extract_payload_no_close)
next
  case True
  then obtain a1 a2 where s: "a = a1 @ CHR ''}'' # a2" and n: "CHR ''}'' \<notin> set a2"
    by (auto dest: split_list_last)
  have i: "indexOf (clean_text t) CHR ''{'' = int (length a)"
    unfolding c using a by (rule indexOf_found)
  have "lastIndexOf (a1 @ CHR ''}'' # (a2 @ CHR ''{'' # b)) CHR ''}'' = int (length a1)"
    using n b by (intro lastIndexOf_found) simp
  then have j: "lastIndexOf (clean_text t) CHR ''}'' = int (length a1)"
    by (simp add: c s)
  have "length a1 < length a" by (simp add: s)
  then show ?thesis by (simp add: extract_payload_def Let_def i j)
qed

lemma brace_layout:
  "CHR ''{'' \<notin> set c \<or>
   (\<exists>a b. c = a @ CHR ''{'' # b \<and> CHR ''{'' \<notin> set a \<and> CHR ''}'' \<notin> set b) \<or>
   (\<exists>pre q post. c = pre @ CHR ''{'' # q @ CHR ''}'' # post \<and>
      CHR ''{'' \<notin> set pre \<and> CHR ''}'' \<notin> set post)"
proof (cases "CHR ''{'' \<in> set c")
  case False
  then show ?thesis by simp
next
  case True
  then obtain a b where c: "c = a @ CHR ''{'' # b" and a: "CHR ''{'' \<notin> set a"
    by (auto dest: split_list_first)
  show ?thesis
  proof (cases "CHR ''}'' \<in> set b")
    case False
    with c a show ?thesis by blast
  next
    case True
    then obtain q post where "b = q @ CHR ''}'' # post" "CHR ''}'' \<notin> set post"
      by (auto dest: split_list_last)
    with c a show ?thesis by blast
  qed
qed

lemma message_has_prefix:
  "sublist (take n c) (m @ c)"
proof -
  have "m @ c = m @ take n c @ drop n c" by simp
  then show ?thesis unfolding sublist_def by blast
qed

text \<open>
  Claim C5. Let \<open>c\<close> be the text of the response after the fence has been stripped
  and the ends trimmed. When \<open>c\<close> has no opening brace, or no closing brace, or no
  closing brace behind its first opening brace, the extraction fails with the error of
  line 133; its message holds \<open>c\<close> whole, and with it the first 200 code units of
  \<open>c\<close> that the diagnostic of line 132 prints. When \<open>c\<close> has a closing brace behind
  its first opening brace, the parser is applied to the part of \<open>c\<close> from the first
  opening brace to the last closing brace, both included, and an error of the parser is
  the error of the extraction. One of the two cases always holds.
\<close>

theorem extract_boundaries:
  assumes "c = clean_text t"
  shows
    "(CHR ''{'' \<notin> set c \<or> CHR ''}'' \<notin> set c \<or>
      (\<exists>a b. c = a @ CHR ''{'' # b \<and> CHR ''{'' \<notin> set a \<and> CHR ''}'' \<notin> set b) \<longrightarrow>
        extract_enrichment parse (JStr t) =
          Inl (Error (''Could not find valid JSON in Gemini response: '' @ c)) \<and>
        sublist (take 200 c) (''Could not find valid JSON in Gemini response: '' @ c)) \<and>
     (\<forall>pre q post. c = pre @ CHR ''{'' # q @ CHR ''}'' # post \<and>
        CHR ''{'' \<notin> set pre \<and> CHR ''}'' \<notin> set post \<longrightarrow>
        extract_enrichment parse (JStr t) = bindE (parse (CHR ''{'' # q @ ''}'')) normalize \<and>
        (\<forall>e. parse (CHR ''{'' # q @ ''}'') = Inl e \<longrightarrow> extract_enrichment parse (JStr t) = Inl e)) \<and>
     (CHR ''{'' \<notin> set c \<or>
      (\<exists>a b. c = a @ CHR ''{'' # b \<and> CHR ''{'' \<notin> set a \<and> CHR ''}'' \<notin> set b) \<or>
      (\<exists>pre q post. c = pre @ CHR ''{'' # q @ CHR ''}'' # post \<and>
         CHR ''{'' \<notin> set pre \<and> CHR ''}'' \<notin> set post))"
proof (intro conjI impI allI)
  assume "CHR ''{'' \<notin> set c \<or> CHR ''}'' \<notin> set c \<or>
      (\<exists>a b. c = a @ CHR ''{'' # b \<and> CHR ''{'' \<notin> set a \<and> CHR ''}'' \<notin> set b)"
  then have "extract_payload parse (JStr t) = Inl (no_json (clean_text t))"
    unfolding assms
    using extract_payload_no_open extract_payload_no_close extract_payload_reversed by blast
  then show "extract_enrichment parse (JStr t) =
          Inl (Error (''Could not find valid JSON in Gemini response: '' @ c))"
    by (simp add: extract_enrichment_def no_json_def assms)
next
  show "sublist (take 200 c) (''Could not find valid JSON in Gemini response: '' @ c)"
    by (rule message_has_prefix)
next
  fix pre q post
  assume h: "c = pre @ CHR ''{'' # q @ CHR ''}'' # post \<and>
        CHR ''{'' \<notin> set pre \<and> CHR ''}'' \<notin> set post"
  then have p: "extract_payload parse (JStr t) = parse (CHR ''{'' # q @ ''}'')"
    unfolding assms using extract_payload_pair by blast
  then show "extract_enrichment parse (JStr t) = bindE (parse (CHR ''{'' # q @ ''}'')) normalize"
    by (simp add: extract_enrichment_def)
  fix e assume "parse (CHR ''{'' # q @ ''}'') = Inl e"
  with p show "extract_enrichment parse (JStr t) = Inl e"
    by (simp add: extract_enrichment_def)
next
  show "CHR ''{'' \<notin> set c \<or>
      (\<exists>a b. c = a @ CHR ''{'' # b \<and> CHR ''{'' \<notin> set a \<and> CHR ''}'' \<notin> set b) \<or>
      (\<exists>pre q post. c = pre @ CHR ''{'' # q @ CHR ''}'' # post \<and>
         CHR ''{'' \<notin> set pre \<and> CHR ''}'' \<notin> set post)"
    by (rule brace_layout)
qed


text \<open>
  Braces in the wrong order, an opening brace alone, and a brace pair around a text
  that the parser rejects.
\<close>

theorem extract_boundaries_witness:
  "extract_enrichment (table_parse []) (JStr ''} prose {'') =
     Inl (Error ''Could not find valid JSON in Gemini response: } prose {'') \<and>
   extract_enrichment (table_parse []) (JStr ''{ cut off'') =
     Inl (Error ''Could not find valid JSON in Gemini response: { cut off'') \<and>
   extract_enrichment (table_parse []) (JStr ''see {a: 1} above'') =
     Inl (SyntaxError ''Unexpected token'')"
proof -
  have c1: "''} prose {'' = clean_text ''} prose {''"
    by (simp add: clean_text_def strip_fence_def fence_open_def fence_close_def js_trim_def
        is_ws_def suffix_to_prefix)
  have d1: "\<exists>a b. ''} prose {'' = a @ CHR ''{'' # b \<and> CHR ''{'' \<notin> set a \<and> CHR ''}'' \<notin> set b"
    by (intro exI [of _ "''} prose ''"] exI [of _ "[]"]) simp
  have c2: "''{ cut off'' = clean_text ''{ cut off''"
    by (simp add: clean_text_def strip_fence_def fence_open_def fence_close_def js_trim_def
        is_ws_def suffix_to_prefix)
  have d2: "CHR ''}'' \<notin> set ''{ cut off''" by simp
  have c3: "''see {a: 1} above'' = clean_text ''see {a: 1} above''"
    by (simp add: clean_text_def strip_fence_def fence_open_def fence_close_def js_trim_def
        is_ws_def suffix_to_prefix)
  have d3: "''see {a: 1} above'' = ''see '' @ CHR ''{'' # ''a: 1'' @ CHR ''}'' # '' above'' \<and>
            CHR ''{'' \<notin> set ''see '' \<and> CHR ''}'' \<notin> set '' above''"
    by simp
  have p3: "table_parse [] (CHR ''{'' # ''a: 1'' @ ''}'') = Inl (SyntaxError ''Unexpected token'')"
    by (simp add: table_parse_def)
  from extract_boundaries [OF c1, of "table_parse []"] d1
  have 1: "extract_enrichment (table_parse []) (JStr ''} prose {'') =
     Inl (Error ''Could not find valid JSON in Gemini response: } prose {'')"
    by simp
  from extract_boundaries [OF c2, of "table_parse []"] d2
  have 2: "extract_enrichment (table_parse []) (JStr ''{ cut off'') =
     Inl (Error ''Could not find valid JSON in Gemini response: { cut off'')"
    by simp
  from extract_boundaries [OF c3, of "table_parse []"] d3 p3
  have 3: "extract_enrichment (table_parse []) (JStr ''see {a: 1} above'') =
     Inl (SyntaxError ''Unexpected token'')"
    by blast
  from 1 2 3 show ?thesis by (intro conjI)
qed


lemma extract_enrichment_framed:
  assumes "CHR ''{'' \<notin> set pre" "CHR ''}'' \<notin> set post"
  shows "extract_enrichment parse (JStr (pre @ CHR ''{'' # q @ ''}'' @ post)) =
         bindE (parse (CHR ''{'' # q @ ''}'')) normalize"
  using extract_payload_framed [OF assms, of parse q] by (simp add: extract_enrichment_def)

text \<open>
  Claim C6. For every payload text that starts with an opening brace and ends with a
  closing brace, the extraction gives the same result for the bare payload, for the
  payload inside a \<^verbatim>\<open>```json\<close> fence, and for the fenced payload followed by a line
  break (the form the comment of line 123 reports): in each case the result of
  normalising what the parser makes of the payload text itself, or the parser's error.
  The same holds for every decoration that has no opening brace before the payload and
  no closing brace behind it.
\<close>

theorem extract_fence_invariant:
  "extract_enrichment parse (JStr (''```json\<newline>'' @ CHR ''{'' # q @ ''}'' @ ''\<newline>```'')) =
     extract_enrichment parse (JStr (CHR ''{'' # q @ ''}'')) \<and>
   extract_enrichment parse (JStr (''```json\<newline>'' @ CHR ''{'' # q @ ''}'' @ ''\<newline>```\<newline>'')) =
     extract_enrichment parse (JStr (CHR ''{'' # q @ ''}'')) \<and>
   extract_enrichment parse (JStr (CHR ''{'' # q @ ''}'')) =
     bindE (parse (CHR ''{'' # q @ ''}'')) normalize \<and>
   (\<forall>pre post. CHR ''{'' \<notin> set pre \<and> CHR ''}'' \<notin> set post \<longrightarrow>
      extract_enrichment parse (JStr (pre @ CHR ''{'' # q @ ''}'' @ post)) =
        extract_enrichment parse (JStr (CHR ''{'' # q @ ''}'')))"
proof -
  have bare: "extract_enrichment parse (JStr (CHR ''{'' # q @ ''}'')) =
     bindE (parse (CHR ''{'' # q @ ''}'')) normalize"
    using extract_enrichment_framed [of "[]" "[]" parse q] by simp
  have fenced: "extract_enrichment parse (JStr (''```json\<newline>'' @ CHR ''{'' # q @ ''}'' @ ''\<newline>```'')) =
     bindE (parse (CHR ''{'' # q @ ''}'')) normalize"
    by (rule extract_enrichment_framed) simp_all
  have fenced_nl: "extract_enrichment parse (JStr (''```json\<newline>'' @ CHR ''{'' # q @ ''}'' @ ''\<newline>```\<newline>'')) =
     bindE (parse (CHR ''{'' # q @ ''}'')) normalize"
    by (rule extract_enrichment_framed) simp_all
  have framed: "extract_enrichment parse (JStr (pre @ CHR ''{'' # q @ ''}'' @ post)) =
        extract_enrichment parse (JStr (CHR ''{'' # q @ ''}''))"
    if "CHR ''{'' \<notin> set pre \<and> CHR ''}'' \<notin> set post" for pre post
    using that extract_enrichment_framed [of pre post parse q] bare by simp
  from bare fenced fenced_nl have
    "extract_enrichment parse (JStr (''```json\<newline>'' @ CHR ''{'' # q @ ''}'' @ ''\<newline>```'')) =
       extract_enrichment parse (JStr (CHR ''{'' # q @ ''}''))"
    "extract_enrichment parse (JStr (''```json\<newline>'' @ CHR ''{'' # q @ ''}'' @ ''\<newline>```\<newline>'')) =
       extract_enrichment parse (JStr (CHR ''{'' # q @ ''}''))"
    by simp_all
  with bare framed show ?thesis by (intro conjI allI impI)
qed

lemma normalize_solar:
  "normalize (JObj solar_fields) = Inr
     \<lparr>summary = JStr ''Solar costs dropped.'', keywords' = [''solar'', ''energy'', ''cost''],
      category = JStr ''Environment'', sentiment = JStr ''Positive''\<rparr>"
  by (simp add: solar_fields_def normalize_def split_keywords_def or_null_def js_trim_def is_ws_def)

lemma table_parse_hit: "table_parse [(t, v)] t = Inr v"
  by (simp add: table_parse_def)

text \<open>The payload the prompt asks for, fenced and bare.\<close>

theorem extract_fence_invariant_witness:
  "extract_enrichment (table_parse [(CHR ''{'' # solar_inner @ ''}'', JObj solar_fields)])
     (JStr (''```json\<newline>'' @ CHR ''{'' # solar_inner @ ''}'' @ ''\<newline>```'')) =
   Inr \<lparr>summary = JStr ''Solar costs dropped.'', keywords' = [''solar'', ''energy'', ''cost''],
      category = JStr ''Environment'', sentiment = JStr ''Positive''\<rparr> \<and>
   extract_enrichment (table_parse [(CHR ''{'' # solar_inner @ ''}'', JObj solar_fields)])
     (JStr (CHR ''{'' # solar_inner @ ''}'')) =
   Inr \<lparr>summary = JStr ''Solar costs dropped.'', keywords' = [''solar'', ''energy'', ''cost''],
      category = JStr ''Environment'', sentiment = JStr ''Positive''\<rparr>"
  using extract_fence_invariant
    [of "table_parse [(CHR ''{'' # solar_inner @ ''}'', JObj solar_fields)]" solar_inner]
  by (simp only: table_parse_hit bindE_simps normalize_solar simp_thms)


section \<open>Normalising the payload\<close>

lemma split_keywords_text:
  "\<not> truthy kw \<or> is_string kw \<Longrightarrow>
   split_keywords kw = Inr (if truthy kw then map js_trim (js_split (text_of kw) CHR '','') else [])"
  by (cases kw) (simp_all add: split_keywords_def)

lemma split_keywords_not_text:
  "truthy kw \<Longrightarrow> \<not> is_string kw \<Longrightarrow> split_keywords kw = Inl TypeError"
  by (cases kw) (simp_all add: split_keywords_def)

text \<open>
  Claim C7, amended. For every payload object whose \<open>keywords\<close> field is missing,
  falsy or a text: \<open>summary\<close>, \<open>category\<close> and \<open>sentiment\<close> are each the value of
  the payload's field when that value is truthy (so every non-empty text is taken as
  it is, whether or not it is one of the labels the prompt lists), and \<^verbatim>\<open>null\<close> when
  the field is missing or falsy, the empty text included; \<open>keywords\<close> is the text
  split at each comma with every piece trimmed when the field is a non-empty text, and
  the empty sequence when the field is missing or falsy, the empty text included.
\<close>

theorem normalize_fields:
  assumes "\<not> truthy (prop_lookup kvs ''keywords'') \<or> is_string (prop_lookup kvs ''keywords'')"
  shows "normalize (JObj kvs) = Inr
     \<lparr>summary = (if truthy (prop_lookup kvs ''summary'') then prop_lookup kvs ''summary'' else JNull),
      keywords' = (if truthy (prop_lookup kvs ''keywords'')
                   then map js_trim (js_split (text_of (prop_lookup kvs ''keywords'')) CHR '','')
                   else []),
      category = (if truthy (prop_lookup kvs ''category'') then prop_lookup kvs ''category'' else JNull),
      sentiment = (if truthy (prop_lookup kvs ''sentiment'') then prop_lookup kvs ''sentiment'' else JNull)\<rparr>"
  using split_keywords_text [OF assms]
  by (simp add: normalize_def or_null_def del: prop_lookup.simps)

text \<open>
  The payload the prompt asks for, and an object with nothing but a category that is
  none of the labels.
\<close>

theorem normalize_fields_witness:
  "normalize (JObj solar_fields) = Inr
     \<lparr>summary = JStr ''Solar costs dropped.'', keywords' = [''solar'', ''energy'', ''cost''],
      category = JStr ''Environment'', sentiment = JStr ''Positive''\<rparr> \<and>
   normalize (JObj [(''category'', JStr ''Sports'')]) = Inr
     \<lparr>summary = JNull, keywords' = [], category = JStr ''Sports'', sentiment = JNull\<rparr>"
proof -
  have a: "\<not> truthy (prop_lookup solar_fields ''keywords'')
           \<or> is_string (prop_lookup solar_fields ''keywords'')"
    by (simp add: solar_fields_def)
  have b: "\<not> truthy (prop_lookup [(''category'', JStr ''Sports'')] ''keywords'')
           \<or> is_string (prop_lookup [(''category'', JStr ''Sports'')] ''keywords'')"
    by simp
  from normalize_fields [OF a] normalize_fields [OF b] show ?thesis
    by (simp add: solar_fields_def js_trim_def is_ws_def)
qed

text \<open>
  Claim C7 as it is written fails where a field is present and is the empty text: the
  payload's \<open>category\<close> is the text \<open>''''\<close>, the result's \<open>category\<close> is \<^verbatim>\<open>null\<close>;
  the payload's \<open>keywords\<close> is the text \<open>''''\<close>, whose split has one (empty) piece,
  the result's \<open>keywords\<close> is empty.
\<close>

theorem normalize_fields_counterexample:
  "normalize (JObj empty_fields) = Inr
     \<lparr>summary = JStr ''Solar costs dropped.'', keywords' = [],
      category = JNull, sentiment = JStr ''Positive''\<rparr> \<and>
   prop_lookup empty_fields ''category'' = JStr [] \<and>
   prop_lookup empty_fields ''keywords'' = JStr [] \<and>
   map js_trim (js_split [] CHR '','') = [[]]"
  by (simp add: empty_fields_def normalize_def split_keywords_def or_null_def js_trim_def)

lemma response_text_text_response:
  "t \<noteq> [] \<Longrightarrow> response_text (text_response t) = Inr (JStr t)"
  by (simp add: response_text_def text_response_def)

lemma enrich_stub_model:
  assumes "content \<noteq> []" "printable objectId" "t \<noteq> []"
  shows "enrichContentWithAI (stub_model (text_response t)) parse (JStr content) objectId n =
     (Inr (case extract_enrichment parse (JStr t) of Inl e \<Rightarrow> default_enrichment | Inr r \<Rightarrow> r),
      Suc n)"
proof -
  have "stub_model (text_response t) n (build_prompt (text_of (JStr content))) =
          (Inr (text_response t), Suc n)"
    by (simp add: stub_model_def)
  from enrich_valid [where gen = "stub_model (text_response t)" and w = n
      and content = "JStr content" and parse = parse, OF _ _ assms(2) this] assms(1,3)
  show ?thesis
    by (simp add: response_text_text_response)
qed

lemma normalize_keywords_not_text:
  assumes "js_get payload ''keywords'' = Inr kw" "truthy kw" "\<not> is_string kw"
  shows "normalize payload = Inl TypeError"
  using assms split_keywords_not_text [of kw]
  by (cases payload) (simp_all add: normalize_def)

text \<open>
  Claim C9, amended. Let the payload that the parser returns be an object whose
  \<open>keywords\<close> value is not a text. When that value is truthy (an array, an object, a
  number other than zero, \<^verbatim>\<open>true\<close>), the normalisation throws a \<^verbatim>\<open>TypeError\<close> at
  \<^verbatim>\<open>split\<close>, and \<open>enrichContentWithAI\<close> returns the all-default object: the payload's
  summary, category and sentiment are lost with it. When that value is falsy (missing,
  \<^verbatim>\<open>null\<close>, \<^verbatim>\<open>false\<close>, zero), nothing is thrown: \<open>keywords\<close> is empty and summary,
  category and sentiment are taken from the payload.
\<close>

theorem keywords_not_text_defaults:
  assumes "printable objectId" "truthy content" "is_string content"
    and "gen w (build_prompt (text_of content)) = (Inr result, w')"
    and "response_text result = Inr text"
    and "extract_payload parse text = Inr (JObj kvs)"
    and "\<not> is_string (prop_lookup kvs ''keywords'')"
  shows
    "(truthy (prop_lookup kvs ''keywords'') \<longrightarrow>
        normalize (JObj kvs) = Inl TypeError \<and>
        enrichContentWithAI gen parse content objectId w = (Inr default_enrichment, w')) \<and>
     (\<not> truthy (prop_lookup kvs ''keywords'') \<longrightarrow>
        enrichContentWithAI gen parse content objectId w =
          (Inr \<lparr>summary = (if truthy (prop_lookup kvs ''summary'')
                             then prop_lookup kvs ''summary'' else JNull),
                 keywords' = [],
                 category = (if truthy (prop_lookup kvs ''category'')
                             then prop_lookup kvs ''category'' else JNull),
                 sentiment = (if truthy (prop_lookup kvs ''sentiment'')
                              then prop_lookup kvs ''sentiment'' else JNull)\<rparr>, w'))"
proof (intro conjI impI)
  assume t: "truthy (prop_lookup kvs ''keywords'')"
  have "js_get (JObj kvs) ''keywords'' = Inr (prop_lookup kvs ''keywords'')" by simp
  from this t assms(7) show n: "normalize (JObj kvs) = Inl TypeError"
    by (rule normalize_keywords_not_text)
  with assms(5,6) have "bindE (response_text result) (extract_enrichment parse) = Inl TypeError"
    by (simp add: extract_enrichment_def)
  with enrich_valid [where gen = gen and w = w and content = content and parse = parse,
      OF assms(2,3,1,4)]
  show "enrichContentWithAI gen parse content objectId w = (Inr default_enrichment, w')"
    by simp
next
  assume f: "\<not> truthy (prop_lookup kvs ''keywords'')"
  then have "split_keywords (prop_lookup kvs ''keywords'') = Inr []"
    by (simp add: split_keywords_def)
  then have "normalize (JObj kvs) =
     Inr \<lparr>summary = (if truthy (prop_lookup kvs ''summary'')
                             then prop_lookup kvs ''summary'' else JNull),
                 keywords' = [],
                 category = (if truthy (prop_lookup kvs ''category'')
                             then prop_lookup kvs ''category'' else JNull),
                 sentiment = (if truthy (prop_lookup kvs ''sentiment'')
                              then prop_lookup kvs ''sentiment'' else JNull)\<rparr>"
    by (simp add: normalize_def or_null_def del: prop_lookup.simps)
  with assms(5,6) have "bindE (response_text result) (extract_enrichment parse) =
     Inr \<lparr>summary = (if truthy (prop_lookup kvs ''summary'')
                             then prop_lookup kvs ''summary'' else JNull),
                 keywords' = [],
                 category = (if truthy (prop_lookup kvs ''category'')
                             then prop_lookup kvs ''category'' else JNull),
                 sentiment = (if truthy (prop_lookup kvs ''sentiment'')
                              then prop_lookup kvs ''sentiment'' else JNull)\<rparr>"
    by (simp add: extract_enrichment_def)
  with enrich_valid [where gen = gen and w = w and content = content and parse = parse,
      OF assms(2,3,1,4)]
  show "enrichContentWithAI gen parse content objectId w =
          (Inr \<lparr>summary = (if truthy (prop_lookup kvs ''summary'')
                             then prop_lookup kvs ''summary'' else JNull),
                 keywords' = [],
                 category = (if truthy (prop_lookup kvs ''category'')
                             then prop_lookup kvs ''category'' else JNull),
                 sentiment = (if truthy (prop_lookup kvs ''sentiment'')
                              then prop_lookup kvs ''sentiment'' else JNull)\<rparr>, w')"
    by simp
qed

text \<open>
  A payload whose \<open>keywords\<close> is an array of two texts, and one whose \<open>keywords\<close>
  is \<^verbatim>\<open>false\<close>.
\<close>

theorem keywords_not_text_defaults_witness:
  "enrichContentWithAI (stub_model (text_response (CHR ''{'' # listed_inner @ ''}'')))
     (table_parse [(CHR ''{'' # listed_inner @ ''}'', JObj listed_fields)])
     (JStr solar_content) (JStr ''1'') 0 = (Inr default_enrichment, 1) \<and>
   enrichContentWithAI (stub_model (text_response (CHR ''{'' # unset_inner @ ''}'')))
     (table_parse [(CHR ''{'' # unset_inner @ ''}'', JObj unset_fields)])
     (JStr solar_content) (JStr ''1'') 0 =
   (Inr \<lparr>summary = JStr ''Solar costs dropped.'', keywords' = [],
      category = JStr ''Environment'', sentiment = JStr ''Positive''\<rparr>, 1)"
proof -
  let ?t = "CHR ''{'' # listed_inner @ ''}''"
  let ?parse = "table_parse [(?t, JObj listed_fields)]"
  let ?u = "CHR ''{'' # unset_inner @ ''}''"
  let ?parse' = "table_parse [(?u, JObj unset_fields)]"
  have 1: "printable (JStr ''1'')" by simp
  have 2: "truthy (JStr solar_content)" by (simp add: solar_content_def)
  have 3: "is_string (JStr solar_content)" by simp
  have 4: "stub_model (text_response ?t) 0 (build_prompt (text_of (JStr solar_content))) =
             (Inr (text_response ?t), 1)"
    by (simp add: stub_model_def)
  have 5: "response_text (text_response ?t) = Inr (JStr ?t)"
    by (rule response_text_text_response) simp
  have 6: "extract_payload ?parse (JStr ?t) = Inr (JObj listed_fields)"
    using extract_payload_framed [of "[]" "[]" ?parse listed_inner]
    by (simp add: table_parse_hit)
  have 7: "\<not> is_string (prop_lookup listed_fields ''keywords'')"
    by (simp add: listed_fields_def)
  have 8: "truthy (prop_lookup listed_fields ''keywords'')"
    by (simp add: listed_fields_def)
  have u4: "stub_model (text_response ?u) 0 (build_prompt (text_of (JStr solar_content))) =
             (Inr (text_response ?u), 1)"
    by (simp add: stub_model_def)
  have u5: "response_text (text_response ?u) = Inr (JStr ?u)"
    by (rule response_text_text_response) simp
  have u6: "extract_payload ?parse' (JStr ?u) = Inr (JObj unset_fields)"
    using extract_payload_framed [of "[]" "[]" ?parse' unset_inner]
    by (simp add: table_parse_hit)
  have u7: "\<not> is_string (prop_lookup unset_fields ''keywords'')"
    by (simp add: unset_fields_def)
  have u8: "\<not> truthy (prop_lookup unset_fields ''keywords'')"
    by (simp add: unset_fields_def)
  note a = keywords_not_text_defaults [where gen = "stub_model (text_response ?t)" and w = 0
      and content = "JStr solar_content" and parse = ?parse, OF 1 2 3 4 5 6 7,
      THEN conjunct1, THEN mp, OF 8, THEN conjunct2]
  note b = keywords_not_text_defaults [where gen = "stub_model (text_response ?u)" and w = 0
      and content = "JStr solar_content" and parse = ?parse', OF 1 2 3 u4 u5 u6 u7,
      THEN conjunct2, THEN mp, OF u8]
  from b have "enrichContentWithAI (stub_model (text_response ?u)) ?parse'
     (JStr solar_content) (JStr ''1'') 0 =
   (Inr \<lparr>summary = JStr ''Solar costs dropped.'', keywords' = [],
      category = JStr ''Environment'', sentiment = JStr ''Positive''\<rparr>, 1)"
    by (simp add: unset_fields_def)
  with a show ?thesis by (rule conjI)
qed

text \<open>
  Claim C9 as it is written fails where \<open>keywords\<close> is present, not a text, and
  falsy: with \<^verbatim>\<open>"keywords": false\<close> the ternary of line 141 takes its \<^verbatim>\<open>[]\<close> branch,
  nothing is thrown, and summary, category and sentiment are kept.
\<close>

theorem keywords_not_text_counterexample:
  "enrichContentWithAI (stub_model (text_response (CHR ''{'' # unset_inner @ ''}'')))
     (table_parse [(CHR ''{'' # unset_inner @ ''}'', JObj unset_fields)])
     (JStr solar_content) (JStr ''1'') 0 =
   (Inr \<lparr>summary = JStr ''Solar costs dropped.'', keywords' = [],
      category = JStr ''Environment'', sentiment = JStr ''Positive''\<rparr>, 1) \<and>
   js_get (JObj unset_fields) ''keywords'' = Inr (JBool False) \<and>
   \<lparr>summary = JStr ''Solar costs dropped.'', keywords' = [],
      category = JStr ''Environment'', sentiment = JStr ''Positive''\<rparr> \<noteq> default_enrichment"
proof -
  let ?t = "CHR ''{'' # unset_inner @ ''}''"
  let ?parse = "table_parse [(?t, JObj unset_fields)]"
  have n: "normalize (JObj unset_fields) = Inr \<lparr>summary = JStr ''Solar costs dropped.'',
      keywords' = [], category = JStr ''Environment'', sentiment = JStr ''Positive''\<rparr>"
    by (simp add: unset_fields_def normalize_def split_keywords_def or_null_def)
  have "extract_enrichment ?parse (JStr ?t) = bindE (?parse ?t) normalize"
    using extract_enrichment_framed [of "[]" "[]" ?parse unset_inner] by simp
  then have e: "extract_enrichment ?parse (JStr ?t) = Inr \<lparr>summary = JStr ''Solar costs dropped.'',
      keywords' = [], category = JStr ''Environment'', sentiment = JStr ''Positive''\<rparr>"
    by (simp only: table_parse_hit bindE_simps n)
  have "enrichContentWithAI (stub_model (text_response ?t)) ?parse (JStr solar_content) (JStr ''1'') 0 =
     (Inr (case extract_enrichment ?parse (JStr ?t) of Inl e \<Rightarrow> default_enrichment | Inr r \<Rightarrow> r),
      Suc 0)"
    by (rule enrich_stub_model) (simp_all add: solar_content_def)
  then have r: "enrichContentWithAI (stub_model (text_response ?t)) ?parse (JStr solar_content)
      (JStr ''1'') 0 =
    (Inr \<lparr>summary = JStr ''Solar costs dropped.'', keywords' = [],
       category = JStr ''Environment'', sentiment = JStr ''Positive''\<rparr>, 1)"
    by (simp add: e)
  have k: "js_get (JObj unset_fields) ''keywords'' = Inr (JBool False)"
    by (simp add: unset_fields_def)
  have d: "\<lparr>summary = JStr ''Solar costs dropped.'', keywords' = [],
      category = JStr ''Environment'', sentiment = JStr ''Positive''\<rparr> \<noteq> default_enrichment"
    by (simp add: default_enrichment_def)
  from r k d show ?thesis by (intro conjI)
qed


section \<open>The enricher contains its errors\<close>








section \<open>Every record gives one enriched record\<close>

lemma enrich_fst:
  "fst (enrichContentWithAI gen parse content objectId w) =
     (if \<not> printable objectId then Inl TypeError
      else if \<not> truthy content \<or> \<not> is_string content then Inr default_enrichment
      else Inr (case bindE (fst (gen w (build_prompt (text_of content))))
                       (\<lambda>result. bindE (response_text result) (extract_enrichment parse)) of
                  Inl e \<Rightarrow> default_enrichment | Inr r \<Rightarrow> r))"
proof (cases "printable objectId")
  case False
  then show ?thesis
    by (simp add: enrichContentWithAI_def enrich_try_def log_id_def)
next
  case True
  show ?thesis
  proof (cases "truthy content \<and> is_string content")
    case False
    with True show ?thesis using enrich_invalid [of content objectId gen parse w] by auto
  next
    case valid: True
    obtain out w' where g: "gen w (build_prompt (text_of content)) = (out, w')"
      by (cases "gen w (build_prompt (text_of content))")
    from valid True g have
      "enrichContentWithAI gen parse content objectId w =
       (Inr (case bindE out (\<lambda>result. bindE (response_text result) (extract_enrichment parse)) of
             Inl e \<Rightarrow> default_enrichment | Inr r \<Rightarrow> r), w')"
      by (simp add: enrich_valid)
    with valid True g show ?thesis by simp
  qed
qed

lemma enrich_total:
  assumes "printable objectId"
  shows "\<exists>r w'. enrichContentWithAI gen parse content objectId w = (Inr r, w')"
proof -
  from assms have "\<exists>r. fst (enrichContentWithAI gen parse content objectId w) = Inr r"
    by (simp add: enrich_fst)
  then show ?thesis
    by (cases "enrichContentWithAI gen parse content objectId w") auto
qed

lemma map_of_set_prop: "map_of (set_prop kvs k v) = (map_of kvs)(k \<mapsto> v)"
  by (induction kvs) (auto simp add: fun_eq_iff)

lemma merge_enrichment_object:
  "\<exists>ovs. merge_enrichment (JObj kvs) e = JObj ovs \<and>
     map_of ovs ''ai_summary'' = Some (summary e) \<and>
     map_of ovs ''ai_keywords'' = Some (JArr (map JStr (keywords' e))) \<and>
     map_of ovs ''ai_category'' = Some (category e) \<and>
     map_of ovs ''ai_sentiment'' = Some (sentiment e) \<and>
     (\<forall>k. k \<notin> {''ai_summary'', ''ai_keywords'', ''ai_category'', ''ai_sentiment''} \<longrightarrow>
        map_of ovs k = map_of kvs k)"
  by (simp add: merge_enrichment_def map_of_set_prop)

lemma enrich_loop_records:
  assumes "\<forall>a\<in>set items. \<exists>kvs. a = JObj kvs \<and> printable (prop_lookup kvs ''objectID'')"
  shows "\<exists>outs w'. enrich_loop gen parse items acc w = (Inr (acc @ outs), w') \<and>
     list_all2 (\<lambda>a out. \<exists>kvs e w0. a = JObj kvs \<and>
        fst (enrichContentWithAI gen parse (prop_lookup kvs ''content'')
               (prop_lookup kvs ''objectID'') w0) = Inr e \<and>
        out = merge_enrichment a e) items outs"
  using assms
proof (induction items arbitrary: acc w)
  case Nil
  then show ?case by simp
next
  case (Cons a items)
  from Cons.prems obtain kvs where a: "a = JObj kvs"
    and p: "printable (prop_lookup kvs ''objectID'')" by auto
  from enrich_total [OF p, of gen parse "prop_lookup kvs ''content''" w] obtain e w1 where
    e: "enrichContentWithAI gen parse (prop_lookup kvs ''content'') (prop_lookup kvs ''objectID'') w
          = (Inr e, w1)" by blast
  from Cons.prems have "\<forall>a\<in>set items. \<exists>kvs. a = JObj kvs \<and> printable (prop_lookup kvs ''objectID'')"
    by simp
  from Cons.IH [OF this, of "acc @ [merge_enrichment a e]" w1] obtain outs w' where
    l: "enrich_loop gen parse items (acc @ [merge_enrichment a e]) w1
          = (Inr ((acc @ [merge_enrichment a e]) @ outs), w')"
    and r: "list_all2 (\<lambda>a out. \<exists>kvs e w0. a = JObj kvs \<and>
        fst (enrichContentWithAI gen parse (prop_lookup kvs ''content'')
               (prop_lookup kvs ''objectID'') w0) = Inr e \<and>
        out = merge_enrichment a e) items outs"
    by blast
  have "enrich_loop gen parse (a # items) acc w = (Inr (acc @ merge_enrichment a e # outs), w')"
    using a e l by (simp del: prop_lookup.simps)
  moreover have "\<exists>kvs' e' w0. a = JObj kvs' \<and>
        fst (enrichContentWithAI gen parse (prop_lookup kvs' ''content'')
               (prop_lookup kvs' ''objectID'') w0) = Inr e' \<and>
        merge_enrichment a e = merge_enrichment a e'"
    using a e by (metis fst_conv)
  ultimately show ?case using r by auto
qed


text \<open>
  Claim C2, amended. When the file is read and parsed to an array of \<open>N\<close> records
  (objects whose identifier the log lines can print), \<open>processArticles\<close> returns \<open>N\<close>
  objects, the \<open>i\<close>-th made from the \<open>i\<close>-th record: it has the four keys
  \<open>ai_summary\<close>, \<open>ai_keywords\<close>, \<open>ai_category\<close> and \<open>ai_sentiment\<close> with the
  values of the enrichment that \<open>enrichContentWithAI\<close> returned for the record's content
  (the defaults when the enrichment failed), and under every other key exactly what the
  record has under it. A field of the record under one of the four keys is overwritten.
\<close>

theorem process_keeps_records:
  assumes "readFile w filePath = Inr fileContent"
    and "parse fileContent = Inr (JArr records)"
    and "\<forall>a\<in>set records. \<exists>kvs. a = JObj kvs \<and> printable (prop_lookup kvs ''objectID'')"
  shows "\<exists>outs w'. processArticles readFile parse gen filePath w = (Inr outs, w') \<and>
     length outs = length records \<and>
     (\<forall>i<length records. \<exists>kvs ovs e w0.
        records ! i = JObj kvs \<and> outs ! i = JObj ovs \<and>
        fst (enrichContentWithAI gen parse (prop_lookup kvs ''content'')
               (prop_lookup kvs ''objectID'') w0) = Inr e \<and>
        map_of ovs ''ai_summary'' = Some (summary e) \<and>
        map_of ovs ''ai_keywords'' = Some (JArr (map JStr (keywords' e))) \<and>
        map_of ovs ''ai_category'' = Some (category e) \<and>
        map_of ovs ''ai_sentiment'' = Some (sentiment e) \<and>
        (\<forall>k. k \<notin> {''ai_summary'', ''ai_keywords'', ''ai_category'', ''ai_sentiment''} \<longrightarrow>
           map_of ovs k = map_of kvs k))"
proof -
  from enrich_loop_records [OF assms(3), of gen parse "[]" w] obtain outs w' where
    l: "enrich_loop gen parse records [] w = (Inr outs, w')"
    and r: "list_all2 (\<lambda>a out. \<exists>kvs e w0. a = JObj kvs \<and>
        fst (enrichContentWithAI gen parse (prop_lookup kvs ''content'')
               (prop_lookup kvs ''objectID'') w0) = Inr e \<and>
        out = merge_enrichment a e) records outs"
    by auto
  have p: "processArticles readFile parse gen filePath w = (Inr outs, w')"
    using assms(1,2) l by (simp add: processArticles_def process_try_def)
  have n: "length outs = length records"
    using r by (simp add: list_all2_lengthD)
  have "\<exists>kvs ovs e w0.
        records ! i = JObj kvs \<and> outs ! i = JObj ovs \<and>
        fst (enrichContentWithAI gen parse (prop_lookup kvs ''content'')
               (prop_lookup kvs ''objectID'') w0) = Inr e \<and>
        map_of ovs ''ai_summary'' = Some (summary e) \<and>
        map_of ovs ''ai_keywords'' = Some (JArr (map JStr (keywords' e))) \<and>
        map_of ovs ''ai_category'' = Some (category e) \<and>
        map_of ovs ''ai_sentiment'' = Some (sentiment e) \<and>
        (\<forall>k. k \<notin> {''ai_summary'', ''ai_keywords'', ''ai_category'', ''ai_sentiment''} \<longrightarrow>
           map_of ovs k = map_of kvs k)" if "i < length records" for i
  proof -
    from r that obtain kvs e w0 where a: "records ! i = JObj kvs"
      and e: "fst (enrichContentWithAI gen parse (prop_lookup kvs ''content'')
               (prop_lookup kvs ''objectID'') w0) = Inr e"
      and o: "outs ! i = merge_enrichment (records ! i) e"
      by (auto dest: list_all2_nthD)
    from merge_enrichment_object [of kvs e] a e o show ?thesis by metis
  qed
  with p n show ?thesis by blast
qed

lemma enrich_failing_model:
  assumes "content \<noteq> []" "printable objectId"
  shows "enrichContentWithAI failing_model parse (JStr content) objectId n =
           (Inr default_enrichment, Suc n)"
proof -
  have "failing_model n (build_prompt (text_of (JStr content))) =
          (Inl (ExternalError ''429 Too Many Requests''), Suc n)"
    by (simp add: failing_model_def)
  from enrich_valid [where gen = failing_model and w = n and content = "JStr content"
      and parse = parse, OF _ _ assms(2) this] assms(1)
  show ?thesis by simp
qed

lemma dec_0: "dec 0 = ''0''"
  by (simp add: dec.simps digit_def)

text \<open>Two records, the second without content: two objects, the second with its title.\<close>

theorem process_keeps_records_witness:
  "\<exists>outs w'. processArticles (stub_reader two_records_file)
       (table_parse [(two_records_file, JArr two_records)]) failing_model
       ''./data/articles.json'' 0 = (Inr outs, w') \<and>
     length outs = 2 \<and>
     (\<exists>ovs. outs ! 1 = JObj ovs \<and> map_of ovs ''title'' = Some (JStr ''No content''))"
proof -
  have 1: "stub_reader two_records_file (0::nat) ''./data/articles.json'' = Inr two_records_file"
    by (simp add: stub_reader_def)
  have 2: "table_parse [(two_records_file, JArr two_records)] two_records_file = Inr (JArr two_records)"
    by (rule table_parse_hit)
  have 3: "\<forall>a\<in>set two_records. \<exists>kvs. a = JObj kvs \<and> printable (prop_lookup kvs ''objectID'')"
    by (simp add: two_records_def)
  note t = process_keeps_records [where gen = failing_model and readFile = "stub_reader two_records_file"
      and w = "0::nat" and filePath = "''./data/articles.json''" and fileContent = two_records_file
      and parse = "table_parse [(two_records_file, JArr two_records)]" and records = two_records,
      OF 1 2 3]
  from t obtain outs where "\<exists>w'. processArticles (stub_reader two_records_file)
       (table_parse [(two_records_file, JArr two_records)]) failing_model
       ''./data/articles.json'' 0 = (Inr outs, w') \<and>
     length outs = length two_records \<and>
     (\<forall>i<length two_records. \<exists>kvs ovs e w0.
        two_records ! i = JObj kvs \<and> outs ! i = JObj ovs \<and>
        fst (enrichContentWithAI failing_model (table_parse [(two_records_file, JArr two_records)])
               (prop_lookup kvs ''content'') (prop_lookup kvs ''objectID'') w0) = Inr e \<and>
        map_of ovs ''ai_summary'' = Some (summary e) \<and>
        map_of ovs ''ai_keywords'' = Some (JArr (map JStr (keywords' e))) \<and>
        map_of ovs ''ai_category'' = Some (category e) \<and>
        map_of ovs ''ai_sentiment'' = Some (sentiment e) \<and>
        (\<forall>k. k \<notin> {''ai_summary'', ''ai_keywords'', ''ai_category'', ''ai_sentiment''} \<longrightarrow>
           map_of ovs k = map_of kvs k))" ..
  then obtain w' where
    p: "processArticles (stub_reader two_records_file)
       (table_parse [(two_records_file, JArr two_records)]) failing_model
       ''./data/articles.json'' 0 = (Inr outs, w')"
    and n: "length outs = length two_records"
    and f: "\<forall>i<length two_records. \<exists>kvs ovs e w0.
        two_records ! i = JObj kvs \<and> outs ! i = JObj ovs \<and>
        fst (enrichContentWithAI failing_model (table_parse [(two_records_file, JArr two_records)])
               (prop_lookup kvs ''content'') (prop_lookup kvs ''objectID'') w0) = Inr e \<and>
        map_of ovs ''ai_summary'' = Some (summary e) \<and>
        map_of ovs ''ai_keywords'' = Some (JArr (map JStr (keywords' e))) \<and>
        map_of ovs ''ai_category'' = Some (category e) \<and>
        map_of ovs ''ai_sentiment'' = Some (sentiment e) \<and>
        (\<forall>k. k \<notin> {''ai_summary'', ''ai_keywords'', ''ai_category'', ''ai_sentiment''} \<longrightarrow>
           map_of ovs k = map_of kvs k)"
    by (elim exE conjE)
  have "1 < length two_records" by (simp add: two_records_def)
  with f obtain kvs ovs where k: "two_records ! 1 = JObj kvs" and o: "outs ! 1 = JObj ovs"
    and r: "\<forall>k. k \<notin> {''ai_summary'', ''ai_keywords'', ''ai_category'', ''ai_sentiment''} \<longrightarrow>
           map_of ovs k = map_of kvs k"
    by (elim allE [of _ 1] impE exE conjE)
  from k have "kvs = [(''objectID'', JStr ''2''), (''title'', JStr ''No content'')]"
    by (simp add: two_records_def)
  with r have "map_of ovs ''title'' = Some (JStr ''No content'')" by simp
  with o have t: "\<exists>ovs. outs ! 1 = JObj ovs \<and> map_of ovs ''title'' = Some (JStr ''No content'')"
    by simp
  from n have m: "length outs = 2" by (simp add: two_records_def)
  show ?thesis
  proof (intro exI)
    from p m t show "processArticles (stub_reader two_records_file)
       (table_parse [(two_records_file, JArr two_records)]) failing_model
       ''./data/articles.json'' 0 = (Inr outs, w') \<and>
     length outs = 2 \<and>
     (\<exists>ovs. outs ! 1 = JObj ovs \<and> map_of ovs ''title'' = Some (JStr ''No content''))"
      by (intro conjI)
  qed
qed

text \<open>
  Claim C2 as it is written fails for a record that has a field under one of the four
  keys: the record's \<open>ai_summary\<close> is the text \<open>old\<close>, the output's is \<^verbatim>\<open>null\<close>.
\<close>

theorem process_keeps_records_counterexample:
  "processArticles (stub_reader tagged_file) (table_parse [(tagged_file, JArr [JObj tagged_fields])])
      failing_model ''./data/articles.json'' 0 =
     (Inr [JObj [(''objectID'', JStr ''1''), (''content'', JStr solar_content),
                 (''ai_summary'', JNull), (''ai_keywords'', JArr []),
                 (''ai_category'', JNull), (''ai_sentiment'', JNull)]], 1) \<and>
   prop_lookup tagged_fields ''ai_summary'' = JStr ''old''"
proof -
  have e: "enrichContentWithAI failing_model (table_parse [(tagged_file, JArr [JObj tagged_fields])])
             (JStr solar_content) (JStr ''1'') 0 = (Inr default_enrichment, Suc 0)"
    by (rule enrich_failing_model) (simp_all add: solar_content_def)
  have c: "js_get (JObj tagged_fields) ''content'' = Inr (JStr solar_content)"
    by (simp add: tagged_fields_def)
  have i: "js_get (JObj tagged_fields) ''objectID'' = Inr (JStr ''1'')"
    by (simp add: tagged_fields_def)
  have l: "enrich_loop failing_model (table_parse [(tagged_file, JArr [JObj tagged_fields])])
             [JObj tagged_fields] [] 0 =
           (Inr [merge_enrichment (JObj tagged_fields) default_enrichment], Suc 0)"
    using e c i by (simp del: js_get.simps)
  have m: "merge_enrichment (JObj tagged_fields) default_enrichment =
           JObj [(''objectID'', JStr ''1''), (''content'', JStr solar_content),
                 (''ai_summary'', JNull), (''ai_keywords'', JArr []),
                 (''ai_category'', JNull), (''ai_sentiment'', JNull)]"
    by (simp add: merge_enrichment_def tagged_fields_def default_enrichment_def)
  have "processArticles (stub_reader tagged_file) (table_parse [(tagged_file, JArr [JObj tagged_fields])])
      failing_model ''./data/articles.json'' 0 =
     (Inr [merge_enrichment (JObj tagged_fields) default_enrichment], Suc 0)"
    by (simp add: processArticles_def process_try_def stub_reader_def table_parse_hit l
        del: enrich_loop.simps)
  moreover have "prop_lookup tagged_fields ''ai_summary'' = JStr ''old''"
    by (simp add: tagged_fields_def)
  ultimately show ?thesis by (simp add: m)
qed


section \<open>Two runs over the same source\<close>

lemma enrich_deterministic:
  assumes "\<forall>w p. fst (gen w p) = f p"
  shows "fst (enrichContentWithAI gen parse content objectId w1) =
         fst (enrichContentWithAI gen parse content objectId w2)"
  by (simp add: enrich_fst assms)

lemma enrich_loop_deterministic:
  assumes "\<forall>w p. fst (gen w p) = f p"
  shows "fst (enrich_loop gen parse items acc w1) = fst (enrich_loop gen parse items acc w2)"
proof (induction items arbitrary: acc w1 w2)
  case Nil
  show ?case by simp
next
  case (Cons a items)
  show ?case
  proof (cases "js_get a ''content''")
    case (Inl e)
    then show ?thesis by simp
  next
    case content: (Inr c)
    show ?thesis
    proof (cases "js_get a ''objectID''")
      case (Inl e)
      with content show ?thesis by simp
    next
      case oid: (Inr i)
      obtain r1 v1 where e1: "enrichContentWithAI gen parse c i w1 = (r1, v1)"
        by (cases "enrichContentWithAI gen parse c i w1")
      obtain r2 v2 where e2: "enrichContentWithAI gen parse c i w2 = (r2, v2)"
        by (cases "enrichContentWithAI gen parse c i w2")
      from enrich_deterministic [OF assms, of parse c i w1 w2] e1 e2 have r: "r1 = r2" by simp
      show ?thesis
      proof (cases r2)
        case (Inl e)
        with content oid e1 e2 r show ?thesis by simp
      next
        case (Inr en)
        with content oid e1 e2 r Cons.IH [of "acc @ [merge_enrichment a en]" v1 v2]
        show ?thesis by simp
      qed
    qed
  qed
qed

lemma process_deterministic:
  assumes "\<forall>w p. fst (gen w p) = f p" and "readFile w1 filePath = readFile w2 filePath"
  shows "fst (processArticles readFile parse gen filePath w1) =
         fst (processArticles readFile parse gen filePath w2)"
proof -
  have t: "fst (process_try readFile parse gen filePath w1) =
           fst (process_try readFile parse gen filePath w2)"
    using assms(2) enrich_loop_deterministic [OF assms(1), of parse _ "[]" w1 w2]
    by (simp add: process_try_def split: sum.splits)
  have "fst (processArticles readFile parse gen filePath w) =
        (case fst (process_try readFile parse gen filePath w) of
           Inl e \<Rightarrow> Inr [] | Inr xs \<Rightarrow> Inr xs)" for w
    by (cases "process_try readFile parse gen filePath w")
       (simp add: processArticles_def split: sum.splits)
  with t show ?thesis by simp
qed

text \<open>
  Claim C8. With a model whose answer depends on the prompt alone, and a file that
  reads the same after the first run as before it, a second run of \<open>processArticles\<close>,
  started in the world the first run left behind, returns the same sequence as the
  first: nothing of the first run reaches the second but through the file and the model.
\<close>

theorem process_twice:
  assumes "\<forall>w p. fst (gen w p) = f p"
    and "readFile (snd (processArticles readFile parse gen filePath w)) filePath =
         readFile w filePath"
  shows "fst (processArticles readFile parse gen filePath
                (snd (processArticles readFile parse gen filePath w))) =
         fst (processArticles readFile parse gen filePath w)"
  using assms by (rule process_deterministic)

text \<open>A file of two records and a model that counts its calls and always answers the same.\<close>

theorem process_twice_witness:
  "fst (processArticles (stub_reader two_records_file)
          (table_parse [(two_records_file, JArr two_records)])
          (stub_model (text_response ''{}'')) ''./data/articles.json''
          (snd (processArticles (stub_reader two_records_file)
                  (table_parse [(two_records_file, JArr two_records)])
                  (stub_model (text_response ''{}'')) ''./data/articles.json'' 0))) =
   fst (processArticles (stub_reader two_records_file)
          (table_parse [(two_records_file, JArr two_records)])
          (stub_model (text_response ''{}'')) ''./data/articles.json'' 0)"
proof -
  have 1: "\<forall>w p. fst (stub_model (text_response ''{}'') w p) = Inr (text_response ''{}'')"
    by (simp add: stub_model_def)
  have 2: "stub_reader two_records_file
             (snd (processArticles (stub_reader two_records_file)
                  (table_parse [(two_records_file, JArr two_records)])
                  (stub_model (text_response ''{}'')) ''./data/articles.json'' 0))
             ''./data/articles.json'' =
           stub_reader two_records_file (0::nat) ''./data/articles.json''"
    by (simp add: stub_reader_def)
  from 1 2 show ?thesis
    by (rule process_twice [where f = "\<lambda>p. Inr (text_response ''{}'')"])
qed

section \<open>Sources that hold no array\<close>

lemma enrich_loop_chars:
  "enrich_loop gen parse (map (\<lambda>c. JStr [c]) s) acc w =
     (Inr (acc @ map (\<lambda>c. JObj [(''0'', JStr [c]), (''ai_summary'', JNull),
                                (''ai_keywords'', JArr []), (''ai_category'', JNull),
                                (''ai_sentiment'', JNull)]) s), w)"
proof (induction s arbitrary: acc)
  case Nil
  show ?case by simp
next
  case (Cons c s)
  have e: "enrichContentWithAI gen parse JUndefined JUndefined w = (Inr default_enrichment, w)"
    by (rule enrich_invalid) simp_all
  have m: "merge_enrichment (JStr [c]) default_enrichment =
           JObj [(''0'', JStr [c]), (''ai_summary'', JNull), (''ai_keywords'', JArr []),
               (''ai_category'', JNull), (''ai_sentiment'', JNull)]"
    by (simp add: merge_enrichment_def default_enrichment_def dec_0)
  show ?case by (simp add: e m Cons.IH)
qed

text \<open>
  Claim C10, amended. When the content of the file parses to a value that cannot be
  iterated (an object, a number, a boolean or \<^verbatim>\<open>null\<close>), \<open>processArticles\<close> returns the
  empty sequence, raises nothing and makes no model call. When it parses to a text,
  \<open>processArticles\<close> returns one object per character, with the character under the
  key \<open>0\<close> and the four defaults, and makes no model call either.
\<close>

theorem process_not_iterable:
  assumes "readFile w filePath = Inr fileContent"
    and "parse fileContent = Inr v"
  shows "((\<exists>kvs. v = JObj kvs) \<or> (\<exists>n. v = JNum n) \<or> (\<exists>b. v = JBool b) \<or> v = JNull \<longrightarrow>
            processArticles readFile parse gen filePath w = (Inr [], w)) \<and>
         (\<forall>s. v = JStr s \<longrightarrow>
            processArticles readFile parse gen filePath w =
              (Inr (map (\<lambda>c. JObj [(''0'', JStr [c]), (''ai_summary'', JNull),
                                     (''ai_keywords'', JArr []), (''ai_category'', JNull),
                                     (''ai_sentiment'', JNull)]) s), w))"
proof (intro conjI impI allI)
  assume "(\<exists>kvs. v = JObj kvs) \<or> (\<exists>n. v = JNum n) \<or> (\<exists>b. v = JBool b) \<or> v = JNull"
  with assms show "processArticles readFile parse gen filePath w = (Inr [], w)"
    by (auto simp add: processArticles_def process_try_def)
next
  fix s assume "v = JStr s"
  with assms enrich_loop_chars [of gen parse s "[]" w]
  show "processArticles readFile parse gen filePath w =
              (Inr (map (\<lambda>c. JObj [(''0'', JStr [c]), (''ai_summary'', JNull),
                                     (''ai_keywords'', JArr []), (''ai_category'', JNull),
                                     (''ai_sentiment'', JNull)]) s), w)"
    by (simp add: processArticles_def process_try_def)
qed

text \<open>
  A file that holds a single object, a file that holds a number, and a file that holds a
  text of two characters.
\<close>

theorem process_not_iterable_witness:
  "processArticles (stub_reader object_file) (table_parse [(object_file, JObj solar_fields)])
     failing_model ''./data/articles.json'' 0 = (Inr [], 0) \<and>
   processArticles (stub_reader ''42'') (table_parse [(''42'', JNum 42)])
     failing_model ''./data/articles.json'' 0 = (Inr [], 0) \<and>
   processArticles (stub_reader quoted_file) (table_parse [(quoted_file, JStr ''ab'')])
     failing_model ''./data/articles.json'' 0 =
   (Inr [JObj [(''0'', JStr ''a''), (''ai_summary'', JNull), (''ai_keywords'', JArr []),
               (''ai_category'', JNull), (''ai_sentiment'', JNull)],
         JObj [(''0'', JStr ''b''), (''ai_summary'', JNull), (''ai_keywords'', JArr []),
               (''ai_category'', JNull), (''ai_sentiment'', JNull)]], 0)"
proof -
  have 1: "stub_reader object_file (0::nat) ''./data/articles.json'' = Inr object_file"
    by (simp add: stub_reader_def)
  have 2: "table_parse [(object_file, JObj solar_fields)] object_file = Inr (JObj solar_fields)"
    by (rule table_parse_hit)
  have 3: "(\<exists>kvs. JObj solar_fields = JObj kvs) \<or> (\<exists>n. JObj solar_fields = JNum n) \<or>
           (\<exists>b. JObj solar_fields = JBool b) \<or> JObj solar_fields = JNull"
    by simp
  have 4: "stub_reader ''42'' (0::nat) ''./data/articles.json'' = Inr ''42''"
    by (simp add: stub_reader_def)
  have 5: "table_parse [(''42'', JNum 42)] ''42'' = Inr (JNum 42)"
    by (rule table_parse_hit)
  have 6: "(\<exists>kvs. JNum 42 = JObj kvs) \<or> (\<exists>n. JNum 42 = JNum n) \<or>
           (\<exists>b. JNum 42 = JBool b) \<or> JNum 42 = JNull"
    by simp
  have 7: "stub_reader quoted_file (0::nat) ''./data/articles.json'' = Inr quoted_file"
    by (simp add: stub_reader_def)
  have 8: "table_parse [(quoted_file, JStr ''ab'')] quoted_file = Inr (JStr ''ab'')"
    by (rule table_parse_hit)
  note a = process_not_iterable [where readFile = "stub_reader object_file" and w = "0::nat"
      and parse = "table_parse [(object_file, JObj solar_fields)]" and gen = failing_model,
      OF 1 2, THEN conjunct1, THEN mp, OF 3]
  note b = process_not_iterable [where readFile = "stub_reader ''42''" and w = "0::nat"
      and parse = "table_parse [(''42'', JNum 42)]" and gen = failing_model,
      OF 4 5, THEN conjunct1, THEN mp, OF 6]
  note c = process_not_iterable [where readFile = "stub_reader quoted_file" and w = "0::nat"
      and parse = "table_parse [(quoted_file, JStr ''ab'')]" and gen = failing_model,
      OF 7 8, THEN conjunct2, THEN spec, of "''ab''"]
  from c have "processArticles (stub_reader quoted_file) (table_parse [(quoted_file, JStr ''ab'')])
     failing_model ''./data/articles.json'' 0 =
   (Inr [JObj [(''0'', JStr ''a''), (''ai_summary'', JNull), (''ai_keywords'', JArr []),
               (''ai_category'', JNull), (''ai_sentiment'', JNull)],
         JObj [(''0'', JStr ''b''), (''ai_summary'', JNull), (''ai_keywords'', JArr []),
               (''ai_category'', JNull), (''ai_sentiment'', JNull)]], 0)"
    by simp
  with a b show ?thesis by (intro conjI)
qed


text \<open>
  Claim C10 as it is written fails for a file that holds a JSON text: a string is no
  collection of records, but \<^verbatim>\<open>for ... of\<close> iterates it character by character, each
  character has no \<open>content\<close>, and the result has one defaulted object per character.
\<close>

theorem process_not_iterable_counterexample:
  "processArticles (stub_reader quoted_file) (table_parse [(quoted_file, JStr ''ab'')])
     failing_model ''./data/articles.json'' 0 =
   (Inr [JObj [(''0'', JStr ''a''), (''ai_summary'', JNull), (''ai_keywords'', JArr []),
               (''ai_category'', JNull), (''ai_sentiment'', JNull)],
         JObj [(''0'', JStr ''b''), (''ai_summary'', JNull), (''ai_keywords'', JArr []),
               (''ai_category'', JNull), (''ai_sentiment'', JNull)]], 0) \<and>
   fst (processArticles (stub_reader quoted_file) (table_parse [(quoted_file, JStr ''ab'')])
     failing_model ''./data/articles.json'' 0) \<noteq> Inr []"
proof -
  have e: "enrichContentWithAI failing_model parse JUndefined JUndefined (0::nat) =
           (Inr default_enrichment, 0)" for parse
    by (rule enrich_invalid) simp_all
  have m: "merge_enrichment (JStr [c]) default_enrichment =
           JObj [(''0'', JStr [c]), (''ai_summary'', JNull), (''ai_keywords'', JArr []),
               (''ai_category'', JNull), (''ai_sentiment'', JNull)]" for c
    by (simp add: merge_enrichment_def default_enrichment_def dec_0)
  show ?thesis
    by (simp add: processArticles_def process_try_def stub_reader_def table_parse_hit e m)
qed

end
